theory Spec2Isabelle
  imports Main "HOL-Library.Sublist"
begin

section \<open>Go strings and the library functions the pipeline calls\<close>

text \<open>
  A Go string is a sequence of bytes, modelled as \<^typ>\<open>string\<close> (a list of 8-bit
  characters); \<open>len(s)\<close> is \<^term>\<open>length s\<close>. A Go \<open>int\<close> is modelled as
  \<^typ>\<open>int\<close>; the pipeline does no arithmetic on indices beyond comparisons, and the
  64-bit range is written out where \<open>strconv.Atoi\<close> checks it. A byte value
  and a rune (a code point) are integers as well.
\<close>

definition byte :: "char \<Rightarrow> int" where
  "byte c = of_char c"

definition chr :: "int \<Rightarrow> char" where
  "chr n = char_of n"

subsection \<open>unicode/utf8\<close>

definition RuneError :: int where
  "RuneError = 0xFFFD"

definition isCont :: "char \<Rightarrow> bool" where
  "isCont c = (0x80 \<le> byte c \<and> byte c \<le> 0xBF)"

text \<open>
  \<open>utf8.DecodeRuneInString\<close>: the first rune of \<open>s\<close> and its width in bytes;
  \<open>(RuneError, 0)\<close> on the empty string and \<open>(RuneError, 1)\<close> on an invalid or
  incomplete encoding (overlong forms, surrogates and values above U+10FFFF are
  invalid, through the accepted range of the second byte).
\<close>

fun utf8_DecodeRune :: "string \<Rightarrow> int \<times> nat" where
  "utf8_DecodeRune [] = (RuneError, 0)"
| "utf8_DecodeRune (c0 # rest) =
     (let b0 = byte c0 in
      if b0 < 0x80 then (b0, 1)
      else if 0xC2 \<le> b0 \<and> b0 \<le> 0xDF then
        (case rest of
           c1 # _ \<Rightarrow>
             if isCont c1 then ((b0 mod 32) * 64 + byte c1 mod 64, 2) else (RuneError, 1)
         | _ \<Rightarrow> (RuneError, 1))
      else if 0xE0 \<le> b0 \<and> b0 \<le> 0xEF then
        (case rest of
           c1 # c2 # _ \<Rightarrow>
             if (if b0 = 0xE0 then 0xA0 else 0x80) \<le> byte c1
                \<and> byte c1 \<le> (if b0 = 0xED then 0x9F else 0xBF) \<and> isCont c2
             then ((b0 mod 16) * 4096 + (byte c1 mod 64) * 64 + byte c2 mod 64, 3)
             else (RuneError, 1)
         | _ \<Rightarrow> (RuneError, 1))
      else if 0xF0 \<le> b0 \<and> b0 \<le> 0xF4 then
        (case rest of
           c1 # c2 # c3 # _ \<Rightarrow>
             if (if b0 = 0xF0 then 0x90 else 0x80) \<le> byte c1
                \<and> byte c1 \<le> (if b0 = 0xF4 then 0x8F else 0xBF) \<and> isCont c2 \<and> isCont c3
             then ((b0 mod 8) * 262144 + (byte c1 mod 64) * 4096
                   + (byte c2 mod 64) * 64 + byte c3 mod 64, 4)
             else (RuneError, 1)
         | _ \<Rightarrow> (RuneError, 1))
      else (RuneError, 1))"

text \<open>
  \<open>utf8.DecodeLastRuneInString\<close>: the last rune of \<open>s\<close> and its width. The
  library walks back from the last byte, over at most three more bytes, to the
  nearest byte that is not a continuation byte, decodes from there and answers
  \<open>(RuneError, 1)\<close> unless that rune ends exactly at the end of \<open>s\<close>.
\<close>

fun lastRuneStart :: "string \<Rightarrow> nat \<Rightarrow> nat \<Rightarrow> nat" where
  "lastRuneStart s lim start =
     (if start \<le> lim then lim
      else if \<not> isCont (s ! (start - 1)) then start - 1
      else lastRuneStart s lim (start - 1))"

declare lastRuneStart.simps [simp del]

definition utf8_DecodeLastRune :: "string \<Rightarrow> int \<times> nat" where
  "utf8_DecodeLastRune s =
     (let end = length s in
      if end = 0 then (RuneError, 0)
      else if byte (s ! (end - 1)) < 0x80 then (byte (s ! (end - 1)), 1)
      else
        let start = lastRuneStart s (end - 4) (end - 1);
            (r, size) = utf8_DecodeRune (drop start s)
        in if start + size \<noteq> end then (RuneError, 1) else (r, size))"

subsection \<open>unicode\<close>

text \<open>\<open>unicode.IsSpace\<close>: the runes with the Unicode White_Space property.\<close>

definition unicode_IsSpace :: "int \<Rightarrow> bool" where
  "unicode_IsSpace r =
     ((0x09 \<le> r \<and> r \<le> 0x0D) \<or> r = 0x20 \<or> r = 0x85 \<or> r = 0xA0 \<or> r = 0x1680
      \<or> (0x2000 \<le> r \<and> r \<le> 0x200A) \<or> r = 0x2028 \<or> r = 0x2029 \<or> r = 0x202F
      \<or> r = 0x205F \<or> r = 0x3000)"

subsection \<open>strings\<close>

text \<open>\<open>strings.Index(s, substr)\<close>; \<open>None\<close> stands for \<open>-1\<close>.\<close>

fun strings_Index :: "string \<Rightarrow> string \<Rightarrow> nat option" where
  "strings_Index [] sub = (if sub = [] then Some 0 else None)"
| "strings_Index (c # cs) sub =
     (if prefix sub (c # cs) then Some 0 else map_option Suc (strings_Index cs sub))"

definition strings_Contains :: "string \<Rightarrow> string \<Rightarrow> bool" where
  "strings_Contains s sub = (strings_Index s sub \<noteq> None)"

lemma strings_Index_bound:
  "strings_Index s sub = Some m \<Longrightarrow> m + length sub \<le> length s"
proof (induction s arbitrary: m)
  case Nil
  then show ?case by (simp split: if_splits)
next
  case (Cons c cs)
  show ?case
  proof (cases "prefix sub (c # cs)")
    case True
    with Cons.prems show ?thesis by (auto dest: prefix_length_le)
  next
    case False
    with Cons.prems obtain k where "strings_Index cs sub = Some k" "m = Suc k"
      by auto
    with Cons.IH show ?thesis by fastforce
  qed
qed

text \<open>
  \<open>strings.Split(s, sep)\<close> for a separator that is not empty: the pieces between
  the successive leftmost, non-overlapping occurrences of \<open>sep\<close>. With an empty
  separator the library splits after each UTF-8 sequence.
\<close>

function explode :: "string \<Rightarrow> string list" where
  "explode s =
     (if s = [] then []
      else let w = snd (utf8_DecodeRune s) in take w s # explode (drop w s))"
  by pat_completeness auto

lemma utf8_DecodeRune_width_pos: "s \<noteq> [] \<Longrightarrow> 0 < snd (utf8_DecodeRune s)"
  by (cases s) (auto simp: Let_def split: list.splits)

termination explode
  by (relation "measure length") (auto simp: utf8_DecodeRune_width_pos)

declare explode.simps [simp del]

function strings_Split :: "string \<Rightarrow> string \<Rightarrow> string list" where
  "strings_Split s sep =
     (if sep = [] then explode s
      else case strings_Index s sep of
             None \<Rightarrow> [s]
           | Some m \<Rightarrow> take m s # strings_Split (drop (m + length sep) s) sep)"
  by pat_completeness auto
termination
proof (relation "measure (\<lambda>(s, sep). length s)", goal_cases)
  case 1
  show ?case by simp
next
  case (2 s sep m)
  from strings_Index_bound [OF 2(2)] 2(1) show ?case
    by (cases sep) auto
qed

declare strings_Split.simps [simp del]

text \<open>
  \<open>strings.TrimSpace(s)\<close>: \<open>s\<close> without its leading and trailing white space, as
  \<open>unicode.IsSpace\<close> defines it. The leading runes are decoded forwards and the
  trailing ones backwards, as \<open>TrimLeftFunc\<close> and \<open>TrimRightFunc\<close> do.
\<close>

function trimLeftSpace :: "string \<Rightarrow> string" where
  "trimLeftSpace s =
     (if s = [] then []
      else let (r, w) = utf8_DecodeRune s
           in if unicode_IsSpace r then trimLeftSpace (drop w s) else s)"
  by pat_completeness auto
termination
proof (relation "measure length", goal_cases)
  case 1
  show ?case by simp
next
  case (2 s x r w)
  then have "w = snd (utf8_DecodeRune s)" by (metis snd_conv)
  with 2 utf8_DecodeRune_width_pos [of s] show ?case by simp
qed

declare trimLeftSpace.simps [simp del]

lemma lastRuneStart_le: "lastRuneStart s lim start \<le> max lim start"
proof (induction s lim start rule: lastRuneStart.induct)
  case (1 s lim start)
  then show ?case
    by (subst lastRuneStart.simps) (auto simp: max_def split: if_splits)
qed

lemma utf8_DecodeLastRune_width_pos: "s \<noteq> [] \<Longrightarrow> 0 < snd (utf8_DecodeLastRune s)"
proof -
  assume ne: "s \<noteq> []"
  define st where "st = lastRuneStart s (length s - 4) (length s - 1)"
  obtain r w where rw: "utf8_DecodeRune (drop st s) = (r, w)"
    by (cases "utf8_DecodeRune (drop st s)")
  have "max (length s - 4) (length s - 1) = length s - 1" by arith
  with lastRuneStart_le [of s "length s - 4" "length s - 1"]
  have "st \<le> length s - 1" by (simp add: st_def)
  with ne have lt: "st < length s" by (cases s) auto
  have key: "st + w = length s \<Longrightarrow> 0 < w" using lt by arith
  show ?thesis
    using ne rw key unfolding st_def
    by (auto simp: utf8_DecodeLastRune_def Let_def)
qed

function trimRightSpace :: "string \<Rightarrow> string" where
  "trimRightSpace s =
     (if s = [] then []
      else let (r, w) = utf8_DecodeLastRune s
           in if unicode_IsSpace r then trimRightSpace (take (length s - w) s) else s)"
  by pat_completeness auto
termination
proof (relation "measure length", goal_cases)
  case 1
  show ?case by simp
next
  case (2 s x r w)
  then have "w = snd (utf8_DecodeLastRune s)" by (metis snd_conv)
  with 2 utf8_DecodeLastRune_width_pos [of s] show ?case by simp
qed

declare trimRightSpace.simps [simp del]

definition strings_TrimSpace :: "string \<Rightarrow> string" where
  "strings_TrimSpace s = trimRightSpace (trimLeftSpace s)"

subsection \<open>strconv and fmt\<close>

datatype numerr = ErrSyntax | ErrRange

text \<open>
  The errors of the pipeline. Go builds them with \<open>fmt.Errorf(format, args...)\<close>;
  \<open>Errorf\<close> keeps the format string and the operands as the source writes them.
  \<open>Wrapf\<close> is an \<open>fmt.Errorf\<close> whose format has the verb \<open>%w\<close>: it keeps the
  format string, the wrapped error and the other operands in their order.
  \<open>NumError\<close> is \<open>*strconv.NumError\<close> with its fields \<open>Func\<close>, \<open>Num\<close> and
  \<open>Err\<close>; \<open>External\<close> is an error handed back by a collaborator (the generator
  backend, the YAML decoder, the operating system, the directory walker). The
  two panics are those of an index expression \<open>a[i]\<close> and of a slice expression
  \<open>a[:n]\<close>, with the offending value and the length.
\<close>

datatype arg = AInt int | AString string | AIntList "int list"

datatype error =
    Errorf string "arg list"
  | Wrapf string error "arg list"
  | NumError string string numerr
  | External string
  | PanicIndexOutOfRange int nat
  | PanicSliceBounds int nat

definition isDigit :: "char \<Rightarrow> bool" where
  "isDigit c = (0x30 \<le> byte c \<and> byte c \<le> 0x39)"

definition maxUint64 :: int where
  "maxUint64 = 2 ^ 64 - 1"

text \<open>
  \<open>strconv.ParseUint(s, 10, 64)\<close>: digits only (no sign, no underscore in base
  10); the scan stops with a syntax error at the first other byte and with a
  range error as soon as the value leaves 64 bits. The \<open>uint64\<close> accumulator is an
  \<^typ>\<open>int\<close> that the two range checks keep below \<open>2^64\<close>.
\<close>

fun parseUintLoop :: "int \<Rightarrow> string \<Rightarrow> numerr + int" where
  "parseUintLoop n [] = Inr n"
| "parseUintLoop n (c # cs) =
     (if \<not> isDigit c then Inl ErrSyntax
      else if n \<ge> maxUint64 div 10 + 1 then Inl ErrRange
      else let n1 = n * 10 + (byte c - 0x30)
           in if n1 > maxUint64 then Inl ErrRange else parseUintLoop n1 cs)"

definition strconv_ParseUint :: "string \<Rightarrow> numerr + int" where
  "strconv_ParseUint s = (if s = [] then Inl ErrSyntax else parseUintLoop 0 s)"

text \<open>
  \<open>strconv.Atoi(s)\<close> where \<open>int\<close> has 64 bits: an optional sign, then
  \<open>ParseUint\<close>, then the check against \<open>2^63\<close>. (The library's fast path for
  short strings computes the same result.)
\<close>

definition strconv_Atoi :: "string \<Rightarrow> error + int" where
  "strconv_Atoi s0 =
     (if s0 = [] then Inl (NumError ''Atoi'' s0 ErrSyntax)
      else
        let neg = (hd s0 = CHR ''-'');
            s = (if hd s0 = CHR ''+'' \<or> hd s0 = CHR ''-'' then tl s0 else s0)
        in case strconv_ParseUint s of
             Inl e \<Rightarrow> Inl (NumError ''Atoi'' s0 e)
           | Inr un \<Rightarrow>
               if \<not> neg \<and> un \<ge> 2 ^ 63 then Inl (NumError ''Atoi'' s0 ErrRange)
               else if neg \<and> un > 2 ^ 63 then Inl (NumError ''Atoi'' s0 ErrRange)
               else Inr (if neg then - un else un))"

text \<open>The verb \<open>%d\<close> of \<open>fmt.Sprintf\<close>, and \<open>%02d\<close> (zero-padded to width 2).\<close>

function digits :: "int \<Rightarrow> string" where
  "digits n = (if n < 10 then [chr (0x30 + n)] else digits (n div 10) @ [chr (0x30 + n mod 10)])"
  by pat_completeness auto
termination
  by (relation "measure nat") auto

declare digits.simps [simp del]

definition fmt_d :: "int \<Rightarrow> string" where
  "fmt_d i = (if i < 0 then CHR ''-'' # digits (- i) else digits i)"

definition fmt_02d :: "int \<Rightarrow> string" where
  "fmt_02d i = (let s = fmt_d i in if length s < 2 then CHR ''0'' # s else s)"


section \<open>The cross-reference resolver\<close>

text \<open>
  A value decoded by the YAML library into \<open>interface{}\<close>: an \<open>int\<close>, a
  \<open>string\<close>, or a value of another dynamic type, of which only the name of the
  type is kept (what \<open>%T\<close> prints; the argument of \<open>Errorf\<close> is that name).
\<close>

datatype yvalue = VInt int | VString string | VOther string

fun extractIndex :: "yvalue \<Rightarrow> error + int" where
  "extractIndex (VInt v) = Inr v"
| "extractIndex (VString v) =
     (if strings_Contains v ''#'' then
        (case strings_Split v ''#'' of
           [] \<Rightarrow> Inl (PanicIndexOutOfRange 0 0)
         | p0 # _ \<Rightarrow> strconv_Atoi (strings_TrimSpace p0))
      else strconv_Atoi (strings_TrimSpace v))"
| "extractIndex (VOther t) = Inl (Errorf ''unexpected type %T for index'' [AString t])"


section \<open>The data model\<close>

text \<open>
  The structs of package \<open>types\<close>, one record each. Record fields share one name
  space, so each field carries a prefix for its struct: \<open>file_\<close> (FileContent),
  \<open>abs_\<close> (Abstraction), \<open>rel_\<close> (Relationship), \<open>rd_\<close> (RelationshipData),
  \<open>prev_\<close> (ChapterSummary), \<open>ch_\<close> (WriteChapterOutput), and \<open>aa_\<close>, \<open>ar_\<close>,
  \<open>oc_\<close>, \<open>wc_\<close>, \<open>wm_\<close> for the inputs of the five services. The output structs
  with a single field (\<open>Abstractions\<close>, \<open>OrderedIndices\<close>, \<open>FilesWritten\<close>) are
  that field. \<open>ya_\<close>, \<open>yr_\<close> and \<open>yd_\<close> are the structs the YAML decoder fills
  (\<open>yamlAbstraction\<close>, \<open>yamlRelationship\<close>, \<open>yamlRelationshipData\<close>).
\<close>

record FileContent =
  file_Index :: int
  file_Path :: string
  file_Content :: string

record Abstraction =
  abs_Index :: int
  abs_Name :: string
  abs_Description :: string
  abs_FileIndices :: "int list"

record Relationship =
  rel_FromIndex :: int
  rel_ToIndex :: int
  rel_Label :: string

record RelationshipData =
  rd_Summary :: string
  rd_Details :: "Relationship list"

record ChapterSummary =
  prev_Name :: string
  prev_Summary :: string

record WriteChapterOutput =
  ch_ChapterNumber :: int
  ch_Title :: string
  ch_Content :: string

record AnalyzeAbstractionsInput =
  aa_Files :: "FileContent list"
  aa_ProjectName :: string
  aa_MaxAbstractions :: int

record AnalyzeRelationshipsInput =
  ar_Abstractions :: "Abstraction list"
  ar_Files :: "FileContent list"
  ar_ProjectName :: string

record OrderChaptersInput =
  oc_Abstractions :: "Abstraction list"
  oc_Relationships :: RelationshipData
  oc_ProjectName :: string

record WriteChapterInput =
  wc_Abstraction :: Abstraction
  wc_Files :: "FileContent list"
  wc_PreviousChapters :: "ChapterSummary list"
  wc_ProjectName :: string
  wc_ChapterNumber :: int

record WriteMarkdownFilesInput =
  wm_OutputDir :: string
  wm_Chapters :: "WriteChapterOutput list"

record yamlAbstraction =
  ya_Name :: string
  ya_Description :: string
  ya_Files :: "int list"

record yamlRelationship =
  yr_From :: yvalue
  yr_To :: yvalue
  yr_Label :: string

record yamlRelationshipData =
  yd_Summary :: string
  yd_Details :: "yamlRelationship list"

section \<open>The collaborators\<close>

text \<open>
  The generator: \<open>llm.NewClient()\<close> gives a client or an error, and
  \<open>client.CallLLM(ctx, prompt, systemPrompt)\<close> gives the response text or an
  error. Both are parameters of the services below, and so is
  \<open>yaml.Unmarshal\<close> at each of the three target types.
\<close>

type_synonym client = "string \<Rightarrow> string \<Rightarrow> error + string"

text \<open>
  An index expression \<open>a[i]\<close> of Go: it panics when \<open>i\<close> is negative or not below
  the length.
\<close>

definition goIndex :: "'a list \<Rightarrow> int \<Rightarrow> error + 'a" where
  "goIndex xs i =
     (if i < 0 \<or> int (length xs) \<le> i then Inl (PanicIndexOutOfRange i (length xs))
      else Inr (xs ! nat i))"

text \<open>
  \<open>fmt.Sprintf\<close> for a format whose verbs are given as the list of the literal
  pieces between them, and whose operands are already formatted (\<open>%s\<close> of a
  string is the string, \<open>%d\<close> is \<open>fmt_d\<close>). A verb without operand prints
  \<open>%!s(MISSING)\<close>.
\<close>

fun sprintf :: "string list \<Rightarrow> string list \<Rightarrow> string" where
  "sprintf [] args = []"
| "sprintf [p] args = p"
| "sprintf (p # ps) (a # args) = p @ a @ sprintf ps args"
| "sprintf (p # ps) [] = p @ ''%!s(MISSING)'' @ sprintf ps []"

text \<open>
  The format string of the prompt of \<open>AnalyzeAbstractions\<close>, cut at its \<open>%s\<close> verbs.
\<close>

definition analyzeAbstractionsFormat :: "string list" where
  \<open>analyzeAbstractionsFormat =
    [''You are analyzing the codebase for project "'',
     ''".

FILES:
'',
     ''

FILE LISTING (for reference):
'',
     ''

Your task: Identify the 5-10 core abstractions/concepts in this codebase.

For each abstraction, provide:
- name: A clear, concise name
- description: Beginner-friendly explanation (1-2 sentences)
- files: List of file INDICES (numbers only) related to this abstraction

Output YAML format:
"""yaml
- name: "CoreAbstraction"
  description: "What this abstraction represents and why it matters"
  files: [0, 3, 5]
- name: "AnotherConcept"
  description: "Another key concept"
  files: [1, 2]
"""

Focus on the most important abstractions that a newcomer should understand.
Return ONLY the YAML, no other text.
'']\<close>

text \<open>
  The format string of the prompt of \<open>AnalyzeRelationships\<close>, cut at its \<open>%s\<close> verbs.
\<close>

definition analyzeRelationshipsFormat :: "string list" where
  \<open>analyzeRelationshipsFormat =
    [''You are analyzing relationships in the "'',
     ''" project.

ABSTRACTIONS:
'',
     ''

CODE CONTEXT:
'',
     ''

Your tasks:
1. Write a high-level project summary (2-3 sentences)
2. Describe how these abstractions relate to each other

For relationships, specify:
- from: Source abstraction INDEX (number)
- to: Target abstraction INDEX (number)  
- label: Brief description of relationship (e.g., "uses", "extends", "orchestrates")

Output YAML format:
"""yaml
summary: "High-level description of what this project does"
details:
  - from: 0
    to: 1
    label: "uses"
  - from: 2
    to: 0
    label: "orchestrates"
"""

Return ONLY the YAML, no other text.
'']\<close>

text \<open>
  The format string of the prompt of \<open>OrderChapters\<close>, cut at its \<open>%s\<close> verbs.
\<close>

definition orderChaptersFormat :: "string list" where
  \<open>orderChaptersFormat =
    [''You are creating a tutorial for the "'',
     ''" project.

ABSTRACTIONS:
'',
     ''

CONTEXT:
'',
     ''

Your task: Determine the best order to explain these abstractions to a beginner.

Teaching strategy:
- Start with foundational concepts or user-facing entry points
- Progress to implementation details
- Ensure dependencies are explained before they're used
- Make it pedagogically sound

Return a YAML list of abstraction INDICES in teaching order.
Each entry should be: "index # Name" for clarity.

Example output:
"""yaml
- 2 # EntryPoint
- 0 # Foundation  
- 1 # Implementation
"""

IMPORTANT: Include ALL abstractions exactly once.
Return ONLY the YAML list, no other text.
'']\<close>

text \<open>
  The format string of the prompt of \<open>WriteChapter\<close>, cut at its \<open>%s\<close> verbs.
\<close>

definition writeChapterFormat :: "string list" where
  \<open>writeChapterFormat =
    [''You are writing a tutorial chapter for the "'',
     ''" project.

TARGET AUDIENCE: Developers new to this codebase who want to understand it quickly.

ABSTRACTION TO EXPLAIN:
Name: '',
     ''
Description: '',
     ''

'',
     ''

'',
     ''

Your task: Write a comprehensive, beginner-friendly tutorial chapter explaining this abstraction.

REQUIREMENTS:
1. Use clear, simple language
2. Include code examples from the provided files
3. Use analogies or real-world examples where helpful
4. Explain WHY this abstraction exists, not just WHAT it does
5. Break down complex concepts into digestible parts
6. Format as markdown

STRUCTURE YOUR CHAPTER:
# '',
     ''

[Brief introduction - what is this and why does it matter?]

## What It Does

[Clear explanation of the abstraction's purpose]

## Key Code

[Show relevant code snippets with explanations]

## How It Works

[Step-by-step explanation of the implementation]

## Key Takeaways

- [Important point 1]
- [Important point 2]
- [Important point 3]

OUTPUT: Return ONLY the markdown content, no meta-commentary.
'']\<close>


section \<open>The structured-response extractor\<close>

text \<open>
  The three analysis services cut the YAML text out of the response with the
  same lines (\<open>relationship_analyzer.go\<close> 111-123 and 262-274,
  \<open>chapter_orderer.go\<close> 92-103). \<open>Split(parts[1], "```")[0]\<close> is \<^term>\<open>hd\<close> of a
  list that \<open>strings.Split\<close> never leaves empty (lemma \<open>strings_Split_nonempty\<close>).
\<close>

definition extractYAMLBlock :: "string \<Rightarrow> string" where
  "extractYAMLBlock response =
     (if strings_Contains response ''```yaml'' then
        (let parts = strings_Split response ''```yaml''
         in if length parts > 1 then hd (strings_Split (parts ! 1) ''```'') else response)
      else if strings_Contains response ''```'' then
        (let parts = strings_Split response ''```''
         in if length parts > 1 then parts ! 1 else response)
      else response)"

lemma strings_Split_nonempty: "sep \<noteq> [] \<Longrightarrow> strings_Split s sep \<noteq> []"
  by (subst strings_Split.simps) (simp split: option.split)

section \<open>The abstraction extractor\<close>

definition truncateContent :: "nat \<Rightarrow> string \<Rightarrow> string \<Rightarrow> string" where
  "truncateContent n mark content =
     (if length content > n then take n content @ mark else content)"

definition analyzeAbstractionsPrompt :: "AnalyzeAbstractionsInput \<Rightarrow> string" where
  \<open>analyzeAbstractionsPrompt input =
     (let contextBuilder =
            concat (map (\<lambda>file.
              sprintf [''--- File Index '', '': '', '' ---
''] [fmt_d (file_Index file), file_Path file]
              @ truncateContent 5000 ''
... (truncated)'' (file_Content file)
              @ ''

'') (aa_Files input));
          fileListBuilder =
            concat (map (\<lambda>file.
              sprintf [''- '', '' # '', ''
''] [fmt_d (file_Index file), file_Path file]) (aa_Files input))
      in sprintf analyzeAbstractionsFormat
           [aa_ProjectName input, contextBuilder, fileListBuilder])\<close>

fun checkFileIndices :: "nat \<Rightarrow> string \<Rightarrow> int list \<Rightarrow> error option" where
  "checkFileIndices nfiles name [] = None"
| "checkFileIndices nfiles name (fileIdx # rest) =
     (if fileIdx < 0 \<or> fileIdx \<ge> int nfiles
      then Some (Errorf ''invalid file index %d in abstraction %s'' [AInt fileIdx, AString name])
      else checkFileIndices nfiles name rest)"

text \<open>The loop of lines 290-305; \<open>i\<close> is the position of the loop.\<close>

fun convertAbstractions :: "nat \<Rightarrow> nat \<Rightarrow> yamlAbstraction list \<Rightarrow> error + Abstraction list" where
  "convertAbstractions nfiles i [] = Inr []"
| "convertAbstractions nfiles i (ya # rest) =
     (case checkFileIndices nfiles (ya_Name ya) (ya_Files ya) of
        Some e \<Rightarrow> Inl e
      | None \<Rightarrow>
          (case convertAbstractions nfiles (Suc i) rest of
             Inl e \<Rightarrow> Inl e
           | Inr abstractions \<Rightarrow>
               Inr (\<lparr>abs_Index = int i, abs_Name = ya_Name ya,
                     abs_Description = ya_Description ya,
                     abs_FileIndices = ya_Files ya\<rparr> # abstractions)))"

text \<open>
  Lines 281-309, from the parsed list on. The slice expression
  \<open>yamlAbstractions[:input.MaxAbstractions]\<close> panics on a negative bound.
\<close>

definition validateAbstractions ::
  "AnalyzeAbstractionsInput \<Rightarrow> yamlAbstraction list \<Rightarrow> error + Abstraction list" where
  "validateAbstractions input yamlAbstractions =
     (if length yamlAbstractions = 0 then Inl (Errorf ''no abstractions identified'' [])
      else if int (length yamlAbstractions) > aa_MaxAbstractions input then
        (if aa_MaxAbstractions input < 0
         then Inl (PanicSliceBounds (aa_MaxAbstractions input) (length yamlAbstractions))
         else convertAbstractions (length (aa_Files input)) 0
                (take (nat (aa_MaxAbstractions input)) yamlAbstractions))
      else convertAbstractions (length (aa_Files input)) 0 yamlAbstractions)"

definition analyzeAbstractionsSystem :: string where
  "analyzeAbstractionsSystem =
     ''You are a code analysis expert helping developers understand unfamiliar codebases.''"

definition AnalyzeAbstractions ::
  "(error + client) \<Rightarrow> (string \<Rightarrow> error + yamlAbstraction list)
     \<Rightarrow> AnalyzeAbstractionsInput \<Rightarrow> error + Abstraction list" where
  \<open>AnalyzeAbstractions NewClient Unmarshal input =
     (if length (aa_Files input) = 0 then Inl (Errorf ''no files provided'' [])
      else case NewClient of
        Inl err \<Rightarrow> Inl (Wrapf ''failed to create LLM client: %w'' err [])
      | Inr client \<Rightarrow>
          (case client (analyzeAbstractionsPrompt input) analyzeAbstractionsSystem of
             Inl err \<Rightarrow> Inl (Wrapf ''LLM call failed: %w'' err [])
           | Inr response \<Rightarrow>
               (case Unmarshal (extractYAMLBlock response) of
                  Inl err \<Rightarrow>
                    Inl (Wrapf ''failed to parse YAML response: %w
Response: %s'' err [AString response])
                | Inr yamlAbstractions \<Rightarrow> validateAbstractions input yamlAbstractions)))\<close>

section \<open>The relationship extractor\<close>

text \<open>The abstraction listing, built by the same loop in the two services that use it.\<close>

definition abstractionListing :: "Abstraction list \<Rightarrow> string" where
  \<open>abstractionListing abstractions =
     concat (map (\<lambda>abstr.
       sprintf [''- '', '' # '', '': '', ''
''] [fmt_d (abs_Index abstr), abs_Name abstr, abs_Description abstr]) abstractions)\<close>

text \<open>
  Lines 40-50: the samples of the files of one abstraction. The guard is
  \<open>fileIdx < len(input.Files)\<close>; the index expression \<open>input.Files[fileIdx]\<close> follows.
\<close>

fun relationshipFileSamples :: "FileContent list \<Rightarrow> int list \<Rightarrow> error + string" where
  "relationshipFileSamples files [] = Inr []"
| "relationshipFileSamples files (fileIdx # rest) =
     (if fileIdx < int (length files) then
        (case goIndex files fileIdx of
           Inl e \<Rightarrow> Inl e
         | Inr file \<Rightarrow>
             (case relationshipFileSamples files rest of
                Inl e \<Rightarrow> Inl e
              | Inr s \<Rightarrow>
                  Inr (sprintf [''  File '', '' ('', [CHR '')'', CHR '':'', CHR 0x0A],
                                [CHR 0x0A, CHR 0x0A]]
                         [fmt_d fileIdx, file_Path file,
                          truncateContent 500 ''...'' (file_Content file)] @ s)))
      else relationshipFileSamples files rest)"

fun relationshipCodeContext :: "FileContent list \<Rightarrow> Abstraction list \<Rightarrow> error + string" where
  "relationshipCodeContext files [] = Inr []"
| "relationshipCodeContext files (abstr # rest) =
     (case relationshipFileSamples files (abs_FileIndices abstr) of
        Inl e \<Rightarrow> Inl e
      | Inr samples \<Rightarrow>
          (case relationshipCodeContext files rest of
             Inl e \<Rightarrow> Inl e
           | Inr s \<Rightarrow>
               Inr (sprintf [[CHR 0x0A] @ ''### Abstraction '', '': '', [CHR 0x0A]]
                      [fmt_d (abs_Index abstr), abs_Name abstr]
                    @ ''Related files:'' @ [CHR 0x0A] @ samples @ s)))"

text \<open>The loop of lines 131-157; \<open>i\<close> is the position of the edge.\<close>

fun convertRelationships :: "nat \<Rightarrow> nat \<Rightarrow> yamlRelationship list \<Rightarrow> error + Relationship list" where
  "convertRelationships n i [] = Inr []"
| "convertRelationships n i (yr # rest) =
     (case extractIndex (yr_From yr) of
        Inl err \<Rightarrow> Inl (Wrapf ''invalid 'from' index in relationship %d: %w'' err [AInt (int i)])
      | Inr fromIdx \<Rightarrow>
          (case extractIndex (yr_To yr) of
             Inl err \<Rightarrow> Inl (Wrapf ''invalid 'to' index in relationship %d: %w'' err [AInt (int i)])
           | Inr toIdx \<Rightarrow>
               if fromIdx < 0 \<or> fromIdx \<ge> int n
               then Inl (Errorf ''from index %d out of bounds in relationship %d''
                           [AInt fromIdx, AInt (int i)])
               else if toIdx < 0 \<or> toIdx \<ge> int n
               then Inl (Errorf ''to index %d out of bounds in relationship %d''
                           [AInt toIdx, AInt (int i)])
               else (case convertRelationships n (Suc i) rest of
                       Inl e \<Rightarrow> Inl e
                     | Inr relationships \<Rightarrow>
                         Inr (\<lparr>rel_FromIndex = fromIdx, rel_ToIndex = toIdx,
                               rel_Label = yr_Label yr\<rparr> # relationships))))"

definition analyzeRelationshipsSystem :: string where
  "analyzeRelationshipsSystem = ''You are a software architecture analyst.''"

definition analyzeRelationshipsPrompt :: "AnalyzeRelationshipsInput \<Rightarrow> string \<Rightarrow> string" where
  "analyzeRelationshipsPrompt input codeContext =
     sprintf analyzeRelationshipsFormat
       [ar_ProjectName input, abstractionListing (ar_Abstractions input), codeContext]"

definition AnalyzeRelationships ::
  "(error + client) \<Rightarrow> (string \<Rightarrow> error + yamlRelationshipData)
     \<Rightarrow> AnalyzeRelationshipsInput \<Rightarrow> error + RelationshipData" where
  \<open>AnalyzeRelationships NewClient Unmarshal input =
     (if length (ar_Abstractions input) = 0 then Inl (Errorf ''no abstractions provided'' [])
      else case relationshipCodeContext (ar_Files input) (ar_Abstractions input) of
        Inl e \<Rightarrow> Inl e
      | Inr codeContext \<Rightarrow>
      (case NewClient of
        Inl err \<Rightarrow> Inl (Wrapf ''failed to create LLM client: %w'' err [])
      | Inr client \<Rightarrow>
          (case client (analyzeRelationshipsPrompt input codeContext)
                  analyzeRelationshipsSystem of
             Inl err \<Rightarrow> Inl (Wrapf ''LLM call failed: %w'' err [])
           | Inr response \<Rightarrow>
               (case Unmarshal (extractYAMLBlock response) of
                  Inl err \<Rightarrow>
                    Inl (Wrapf ''failed to parse YAML response: %w
Response: %s'' err [AString response])
                | Inr yamlData \<Rightarrow>
                    (case convertRelationships (length (ar_Abstractions input)) 0
                            (yd_Details yamlData) of
                       Inl e \<Rightarrow> Inl e
                     | Inr relationships \<Rightarrow>
                         Inr \<lparr>rd_Summary = yd_Summary yamlData,
                              rd_Details = relationships\<rparr>)))))\<close>

section \<open>The sequencer\<close>

text \<open>
  Lines 36-44 of \<open>chapter_orderer.go\<close>: one line for each relationship, with the
  names of its two abstractions read by index expressions. The arrow of the
  format is the three bytes of U+2192.
\<close>

fun relationshipLines :: "Abstraction list \<Rightarrow> Relationship list \<Rightarrow> error + string" where
  "relationshipLines abstractions [] = Inr []"
| "relationshipLines abstractions (rel # rest) =
     (case goIndex abstractions (rel_FromIndex rel) of
        Inl e \<Rightarrow> Inl e
      | Inr fromAbs \<Rightarrow>
          (case goIndex abstractions (rel_ToIndex rel) of
             Inl e \<Rightarrow> Inl e
           | Inr toAbs \<Rightarrow>
               (case relationshipLines abstractions rest of
                  Inl e \<Rightarrow> Inl e
                | Inr s \<Rightarrow>
                    Inr (sprintf [''- '', '' ('',
                                  '') '' @ [CHR 0xE2, CHR 0x86, CHR 0x92] @ '' '',
                                  '' ('', ''): '', [CHR 0x0A]]
                           [fmt_d (rel_FromIndex rel), abs_Name fromAbs,
                            fmt_d (rel_ToIndex rel), abs_Name toAbs, rel_Label rel]
                         @ s))))"

definition orderChaptersPrompt :: "OrderChaptersInput \<Rightarrow> error + string" where
  "orderChaptersPrompt input =
     (case relationshipLines (oc_Abstractions input) (rd_Details (oc_Relationships input)) of
        Inl e \<Rightarrow> Inl e
      | Inr lines \<Rightarrow>
          Inr (sprintf orderChaptersFormat
                 [oc_ProjectName input, abstractionListing (oc_Abstractions input),
                  sprintf [''Project Summary: '', [CHR 0x0A, CHR 0x0A]]
                    [rd_Summary (oc_Relationships input)]
                  @ ''Relationships:'' @ [CHR 0x0A] @ lines]))"

definition orderChaptersSystem :: string where
  "orderChaptersSystem = ''You are an expert technical educator.''"

text \<open>
  \<open>seen\<close> is a \<open>map[int]bool\<close>; reading a key that was never stored gives
  \<open>false\<close>.
\<close>

definition seenAt :: "(int \<rightharpoonup> bool) \<Rightarrow> int \<Rightarrow> bool" where
  "seenAt seen idx = (case seen idx of None \<Rightarrow> False | Some b \<Rightarrow> b)"

text \<open>
  The loop of lines 114-132: \<open>n\<close> is the number of abstractions, \<open>i\<close> the
  position. It returns the indices stored in \<open>orderedIndices\<close> and the final
  \<open>seen\<close>.
\<close>

fun orderLoop ::
  "nat \<Rightarrow> nat \<Rightarrow> (int \<rightharpoonup> bool) \<Rightarrow> yvalue list \<Rightarrow> error + (int list \<times> (int \<rightharpoonup> bool))" where
  "orderLoop n i seen [] = Inr ([], seen)"
| "orderLoop n i seen (val # rest) =
     (case extractIndex val of
        Inl err \<Rightarrow> Inl (Wrapf ''failed to extract index at position %d: %w'' err [AInt (int i)])
      | Inr idx \<Rightarrow>
          if idx < 0 \<or> idx \<ge> int n
          then Inl (Errorf ''index %d out of bounds at position %d'' [AInt idx, AInt (int i)])
          else if seenAt seen idx
          then Inl (Errorf ''duplicate index %d found'' [AInt idx])
          else (case orderLoop n (Suc i) (seen(idx \<mapsto> True)) rest of
                  Inl e \<Rightarrow> Inl e
                | Inr (orderedIndices, seen') \<Rightarrow> Inr (idx # orderedIndices, seen')))"

text \<open>Lines 110-147, from the decoded list on.\<close>

definition validateOrder :: "nat \<Rightarrow> yvalue list \<Rightarrow> error + int list" where
  "validateOrder n yamlIndices =
     (case orderLoop n 0 Map.empty yamlIndices of
        Inl e \<Rightarrow> Inl e
      | Inr (orderedIndices, seen) \<Rightarrow>
          if length orderedIndices \<noteq> n
          then Inl (Errorf ''missing abstractions in order: %v''
                      [AIntList (filter (\<lambda>i. \<not> seenAt seen i) (map int [0..<n]))])
          else Inr orderedIndices)"

definition OrderChapters ::
  "(error + client) \<Rightarrow> (string \<Rightarrow> error + yvalue list) \<Rightarrow> OrderChaptersInput
     \<Rightarrow> error + int list" where
  \<open>OrderChapters NewClient Unmarshal input =
     (if length (oc_Abstractions input) = 0 then Inl (Errorf ''no abstractions provided'' [])
      else case orderChaptersPrompt input of
        Inl e \<Rightarrow> Inl e
      | Inr prompt \<Rightarrow>
      (case NewClient of
        Inl err \<Rightarrow> Inl (Wrapf ''failed to create LLM client: %w'' err [])
      | Inr client \<Rightarrow>
          (case client prompt orderChaptersSystem of
             Inl err \<Rightarrow> Inl (Wrapf ''LLM call failed: %w'' err [])
           | Inr response \<Rightarrow>
               (case Unmarshal (extractYAMLBlock response) of
                  Inl err \<Rightarrow>
                    Inl (Wrapf ''failed to parse YAML response: %w
Response: %s'' err [AString response])
                | Inr yamlIndices \<Rightarrow>
                    validateOrder (length (oc_Abstractions input)) yamlIndices))))\<close>

section \<open>The chapter composer\<close>

definition strings_HasPrefix :: "string \<Rightarrow> string \<Rightarrow> bool" where
  "strings_HasPrefix s pre = (length pre \<le> length s \<and> take (length pre) s = pre)"

definition strings_HasSuffix :: "string \<Rightarrow> string \<Rightarrow> bool" where
  "strings_HasSuffix s suf = (length suf \<le> length s \<and> drop (length s - length suf) s = suf)"

definition strings_TrimPrefix :: "string \<Rightarrow> string \<Rightarrow> string" where
  "strings_TrimPrefix s pre = (if strings_HasPrefix s pre then drop (length pre) s else s)"

definition strings_TrimSuffix :: "string \<Rightarrow> string \<Rightarrow> string" where
  "strings_TrimSuffix s suf =
     (if strings_HasSuffix s suf then take (length s - length suf) s else s)"

text \<open>
  Lines 32-50 of \<open>WriteChapter\<close>: the files of the abstraction. The guard is
  \<open>fileIdx >= len(input.Files)\<close>, which skips the index; the index expression
  \<open>input.Files[fileIdx]\<close> follows.
\<close>

fun chapterFileContext :: "FileContent list \<Rightarrow> int list \<Rightarrow> error + string" where
  "chapterFileContext files [] = Inr []"
| "chapterFileContext files (fileIdx # rest) =
     (if fileIdx \<ge> int (length files) then chapterFileContext files rest
      else
        (case goIndex files fileIdx of
           Inl e \<Rightarrow> Inl e
         | Inr file \<Rightarrow>
             (case chapterFileContext files rest of
                Inl e \<Rightarrow> Inl e
              | Inr s \<Rightarrow>
                  Inr (sprintf [''### File: '', [CHR 0x0A]] [file_Path file]
                       @ ''```'' @ [CHR 0x0A]
                       @ truncateContent 8000 ([CHR 0x0A] @ ''... (truncated for brevity)'')
                           (file_Content file)
                       @ [CHR 0x0A] @ ''```'' @ [CHR 0x0A, CHR 0x0A] @ s))))"

text \<open>Lines 52-61: the block about the chapters written before.\<close>

definition previousChaptersHeader :: string where
  "previousChaptersHeader =
     [CHR 0x0A, CHR 0x0A] @ ''PREVIOUSLY COVERED CONCEPTS (for reference, don't repeat):''
     @ [CHR 0x0A]"

definition previousChapterLine :: "ChapterSummary \<Rightarrow> string" where
  "previousChapterLine prev =
     sprintf [''- '', '': '', [CHR 0x0A]] [prev_Name prev, prev_Summary prev]"

definition previousChaptersContext :: "ChapterSummary list \<Rightarrow> string" where
  "previousChaptersContext previousChapters =
     (if length previousChapters > 0
      then previousChaptersHeader @ concat (map previousChapterLine previousChapters)
      else [])"

definition writeChapterPrompt :: "WriteChapterInput \<Rightarrow> string \<Rightarrow> string" where
  "writeChapterPrompt input fileContext =
     sprintf writeChapterFormat
       [wc_ProjectName input, abs_Name (wc_Abstraction input),
        abs_Description (wc_Abstraction input),
        ''Related code files:'' @ [CHR 0x0A, CHR 0x0A] @ fileContext,
        previousChaptersContext (wc_PreviousChapters input),
        abs_Name (wc_Abstraction input)]"

definition writeChapterSystem :: string where
  "writeChapterSystem =
     ''You are an expert technical educator who excels at explaining complex code in simple terms.''"

text \<open>Lines 133-142: the fences the generator may have put around the chapter.\<close>

definition cleanResponse :: "string \<Rightarrow> string" where
  "cleanResponse response =
     (let content = strings_TrimSpace response in
      if strings_HasPrefix content ''```markdown''
      then strings_TrimSpace
             (strings_TrimSuffix (strings_TrimPrefix content ''```markdown'') ''```'')
      else if strings_HasPrefix content ''```''
      then strings_TrimSpace (strings_TrimSuffix (strings_TrimPrefix content ''```'') ''```'')
      else content)"

definition WriteChapter :: "(error + client) \<Rightarrow> WriteChapterInput \<Rightarrow> error + WriteChapterOutput" where
  "WriteChapter NewClient input =
     (if abs_Name (wc_Abstraction input) = []
      then Inl (Errorf ''abstraction name is required'' [])
      else case chapterFileContext (wc_Files input) (abs_FileIndices (wc_Abstraction input)) of
        Inl e \<Rightarrow> Inl e
      | Inr fileContext \<Rightarrow>
      (case NewClient of
        Inl err \<Rightarrow> Inl (Wrapf ''failed to create LLM client: %w'' err [])
      | Inr client \<Rightarrow>
          (case client (writeChapterPrompt input fileContext) writeChapterSystem of
             Inl err \<Rightarrow> Inl (Wrapf ''LLM call failed: %w'' err [])
           | Inr response \<Rightarrow>
               Inr \<lparr>ch_ChapterNumber = wc_ChapterNumber input,
                    ch_Title = abs_Name (wc_Abstraction input),
                    ch_Content = cleanResponse response\<rparr>)))"

definition asciiNonSpace :: "char \<Rightarrow> bool" where
  "asciiNonSpace c = (byte c < 0x80 \<and> \<not> unicode_IsSpace (byte c))"

definition referenceText :: "string \<Rightarrow> string" where
  "referenceText v = strings_TrimSpace (takeWhile (\<lambda>c. c \<noteq> CHR ''#'') v)"

definition isDecimal :: "string \<Rightarrow> bool" where
  "isDecimal s =
     (let b = (if s \<noteq> [] \<and> (hd s = CHR ''+'' \<or> hd s = CHR ''-'') then tl s else s)
      in b \<noteq> [] \<and> list_all isDigit b)"


text \<open>
  The value of a decimal numeral, read the way the claim about the resolver
  words it: \<open>digitsValueFrom a ds\<close> appends the digits \<open>ds\<close> to the value \<open>a\<close>, and
  \<open>decimalValue\<close> takes an optional sign first.
\<close>

fun digitsValueFrom :: "int \<Rightarrow> string \<Rightarrow> int" where
  "digitsValueFrom a [] = a"
| "digitsValueFrom a (c # cs) = digitsValueFrom (a * 10 + (byte c - 0x30)) cs"

definition decimalValue :: "string \<Rightarrow> int" where
  "decimalValue s =
     (if s \<noteq> [] \<and> hd s = CHR ''-'' then - digitsValueFrom 0 (tl s)
      else if s \<noteq> [] \<and> hd s = CHR ''+'' then digitsValueFrom 0 (tl s)
      else digitsValueFrom 0 s)"

text \<open>
  For the statements about the relationship extractor: the index a reference
  resolves to, the edge an entry of the response stands for, and whether both of
  its ends resolve to indices within \<open>0 .. n-1\<close>.
\<close>

definition resolvedIndex :: "yvalue \<Rightarrow> int" where
  "resolvedIndex v = (case extractIndex v of Inr k \<Rightarrow> k | Inl e \<Rightarrow> 0)"

definition resolvedEdge :: "yamlRelationship \<Rightarrow> Relationship" where
  "resolvedEdge yr =
     \<lparr>rel_FromIndex = resolvedIndex (yr_From yr), rel_ToIndex = resolvedIndex (yr_To yr),
      rel_Label = yr_Label yr\<rparr>"

definition edgeInBounds :: "nat \<Rightarrow> yamlRelationship \<Rightarrow> bool" where
  "edgeInBounds n yr =
     (case extractIndex (yr_From yr) of
        Inl e \<Rightarrow> False
      | Inr fromIdx \<Rightarrow>
          (case extractIndex (yr_To yr) of
             Inl e \<Rightarrow> False
           | Inr toIdx \<Rightarrow> 0 \<le> fromIdx \<and> fromIdx < int n \<and> 0 \<le> toIdx \<and> toIdx < int n))"

text \<open>
  For the statements about the sequencer: a list of references all of which
  resolve, the indices they resolve to, and the \<open>seen\<close> map after a list of
  indices has been stored.
\<close>

definition allResolve :: "yvalue list \<Rightarrow> bool" where
  "allResolve vals = list_all (\<lambda>v. \<not> isl (extractIndex v)) vals"

definition resolved :: "yvalue list \<Rightarrow> int list" where
  "resolved vals = map resolvedIndex vals"

fun markSeen :: "(int \<rightharpoonup> bool) \<Rightarrow> int list \<Rightarrow> (int \<rightharpoonup> bool)" where
  "markSeen seen [] = seen"
| "markSeen seen (k # ks) = markSeen (seen(k \<mapsto> True)) ks"

text \<open>
  A list of references is \<open>fine\<close> for \<open>n\<close> abstractions when the loop passes it:
  each reference resolves to an index in \<open>0 .. n-1\<close> and no index comes twice.
\<close>

definition fine :: "nat \<Rightarrow> yvalue list \<Rightarrow> bool" where
  "fine n vals =
     (allResolve vals \<and> distinct (resolved vals)
      \<and> list_all (\<lambda>k. 0 \<le> k \<and> k < int n) (resolved vals))"

text \<open>
  For the statements about the two context builders: the file indices of a
  list that are below the size of the corpus, and an abstraction with only
  those.
\<close>

definition belowCorpus :: "FileContent list \<Rightarrow> int list \<Rightarrow> int list" where
  "belowCorpus files idxs = filter (\<lambda>k. k < int (length files)) idxs"

definition dropAboveCorpus :: "FileContent list \<Rightarrow> Abstraction \<Rightarrow> Abstraction" where
  "dropAboveCorpus files abstr =
     abstr\<lparr>abs_FileIndices := belowCorpus files (abs_FileIndices abstr)\<rparr>"

definition firstNegative :: "int list \<Rightarrow> int option" where
  "firstNegative idxs = find (\<lambda>k. k < 0) idxs"



text \<open>
  For the statements about the structured-response extractor: the text before
  the first occurrence of a separator (all of it when there is none) and the
  text after it.
\<close>

definition textBefore :: "string \<Rightarrow> string \<Rightarrow> string" where
  "textBefore sep s = (case strings_Index s sep of None \<Rightarrow> s | Some q \<Rightarrow> take q s)"

definition textAfter :: "string \<Rightarrow> string \<Rightarrow> string" where
  "textAfter sep s = (case strings_Index s sep of None \<Rightarrow> [] | Some m \<Rightarrow> drop (m + length sep) s)"

text \<open>
  The selection as the specification words it. The fenced blocks of a text, in
  order: a block opens at a fence, runs to the next fence (to the end of the
  text when there is none), and the following block is looked for after that
  closing fence. The tag of a block is what stands between its opening fence and
  the end of that line; its content is the rest of the block.
\<close>

function fencedBlocks :: "string \<Rightarrow> (string \<times> string) list" where
  "fencedBlocks s =
     (case strings_Index s ''```'' of
        None \<Rightarrow> []
      | Some m \<Rightarrow>
          (case strings_Index (drop (m + 3) s) ''```'' of
             None \<Rightarrow>
               [(takeWhile (\<lambda>c. c \<noteq> CHR 0x0A) (drop (m + 3) s),
                 dropWhile (\<lambda>c. c \<noteq> CHR 0x0A) (drop (m + 3) s))]
           | Some q \<Rightarrow>
               (takeWhile (\<lambda>c. c \<noteq> CHR 0x0A) (take q (drop (m + 3) s)),
                dropWhile (\<lambda>c. c \<noteq> CHR 0x0A) (take q (drop (m + 3) s)))
               # fencedBlocks (drop (q + 3) (drop (m + 3) s))))"
  by pat_completeness auto
termination
proof (relation "measure length", goal_cases)
  case 1
  show ?case by simp
next
  case (2 s m q)
  from strings_Index_bound [OF 2(1)] show ?case by simp
qed

declare fencedBlocks.simps [simp del]

text \<open>
  The candidate of the specification: the content of the first block tagged
  \<open>yaml\<close>; without one, the content of the first block without a tag; the whole
  text when there is neither.
\<close>

definition specCandidate :: "string \<Rightarrow> string" where
  "specCandidate response =
     (case find (\<lambda>b. fst b = ''yaml'') (fencedBlocks response) of
        Some b \<Rightarrow> snd b
      | None \<Rightarrow>
          (case find (\<lambda>b. fst b = []) (fencedBlocks response) of
             Some b \<Rightarrow> snd b
           | None \<Rightarrow> response))"

lemma byte_chr: "0 \<le> n \<Longrightarrow> n < 256 \<Longrightarrow> byte (chr n) = n"
  by (simp add: byte_def chr_def)

lemma parseUintLoop_snoc:
  "parseUintLoop a (xs @ [c]) =
     (case parseUintLoop a xs of Inl e \<Rightarrow> Inl e | Inr m \<Rightarrow> parseUintLoop m [c])"
  by (induction xs arbitrary: a) (auto simp: Let_def)

lemma digits_nonempty: "digits n \<noteq> []"
  by (subst digits.simps) simp

lemma digits_all: "0 \<le> n \<Longrightarrow> c \<in> set (digits n) \<Longrightarrow> isDigit c"
proof (induction n rule: digits.induct)
  case (1 n)
  show ?case
  proof (cases "n < 10")
    case True
    with "1.prems" show ?thesis
      by (subst (asm) digits.simps) (simp add: isDigit_def byte_chr)
  next
    case False
    then have ge: "0 \<le> n div 10" by simp
    have m: "0 \<le> n mod 10" "n mod 10 < 10" by simp_all
    from False "1.prems"(2)
    have "c \<in> set (digits (n div 10)) \<or> c = chr (0x30 + n mod 10)"
      by (subst (asm) digits.simps) auto
    then show ?thesis
      using "1.IH" [OF False ge] m by (auto simp: isDigit_def byte_chr)
  qed
qed

lemma parseUintLoop_digits:
  "0 \<le> n \<Longrightarrow> n \<le> maxUint64 \<Longrightarrow> parseUintLoop 0 (digits n) = Inr n"
proof (induction n rule: digits.induct)
  case (1 n)
  show ?case
  proof (cases "n < 10")
    case True
    with "1.prems" show ?thesis
      by (subst digits.simps) (simp add: isDigit_def byte_chr maxUint64_def)
  next
    case False
    then have ge: "0 \<le> n div 10" by simp
    have small: "n div 10 \<le> maxUint64" using "1.prems" by simp
    have m: "0 \<le> n mod 10" "n mod 10 < 10" by simp_all
    have lt: "\<not> maxUint64 div 10 + 1 \<le> n div 10"
      using "1.prems" by (simp add: maxUint64_def)
    from "1.IH" [OF False ge small]
    have ih: "parseUintLoop 0 (digits (n div 10)) = Inr (n div 10)" .
    from False have "digits n = digits (n div 10) @ [chr (0x30 + n mod 10)]"
      by (subst digits.simps) simp
    then show ?thesis
      using ih lt "1.prems" m
      by (simp add: parseUintLoop_snoc isDigit_def byte_chr)
  qed
qed

lemma hd_digits: "0 \<le> n \<Longrightarrow> isDigit (hd (digits n))"
  using digits_all [of n "hd (digits n)"] digits_nonempty [of n] by simp

lemma isDigit_not_sign: "isDigit c \<Longrightarrow> c \<noteq> CHR ''-'' \<and> c \<noteq> CHR ''+''"
  by (auto simp: isDigit_def byte_def)

lemma Atoi_fmt_d:
  assumes "- (2 ^ 63) \<le> i" "i < 2 ^ 63"
  shows "strconv_Atoi (fmt_d i) = Inr i"
proof (cases "i < 0")
  case True
  with assms have ge: "0 \<le> - i" and le: "- i \<le> maxUint64" and le63: "\<not> - i > 2 ^ 63"
    by (auto simp: maxUint64_def)
  from True le63 show ?thesis
    by (simp add: fmt_d_def strconv_Atoi_def strconv_ParseUint_def digits_nonempty
        parseUintLoop_digits [OF ge le] Let_def)
next
  case False
  with assms have ge: "0 \<le> i" and le: "i \<le> maxUint64" and lt63: "\<not> i \<ge> 2 ^ 63"
    by (auto simp: maxUint64_def)
  from isDigit_not_sign [OF hd_digits [OF ge]] False lt63 show ?thesis
    by (simp add: fmt_d_def strconv_Atoi_def strconv_ParseUint_def digits_nonempty
        parseUintLoop_digits [OF ge le] Let_def)
qed

subsection \<open>Index of a single byte\<close>

lemma strings_Index_absent: "c \<notin> set s \<Longrightarrow> strings_Index s [c] = None"
  by (induction s) auto

lemma strings_Index_first:
  "c \<notin> set a \<Longrightarrow> strings_Index (a @ c # t) [c] = Some (length a)"
  by (induction a) auto

lemma strings_Split_first:
  "c \<notin> set a \<Longrightarrow> strings_Split (a @ c # t) [c] = a # strings_Split t [c]"
  by (subst strings_Split.simps) (simp add: strings_Index_first)


lemma trimLeftSpace_keep: "asciiNonSpace c \<Longrightarrow> trimLeftSpace (c # cs) = c # cs"
  by (subst trimLeftSpace.simps) (simp add: asciiNonSpace_def)

lemma trimRightSpace_keep: "asciiNonSpace c \<Longrightarrow> trimRightSpace (s @ [c]) = s @ [c]"
  by (subst trimRightSpace.simps) (simp add: asciiNonSpace_def utf8_DecodeLastRune_def)

lemma trimRightSpace_space: "trimRightSpace (s @ '' '') = trimRightSpace s"
  by (subst trimRightSpace.simps)
    (simp add: utf8_DecodeLastRune_def byte_def unicode_IsSpace_def)

lemma isDigit_asciiNonSpace: "isDigit c \<Longrightarrow> asciiNonSpace c"
  by (auto simp: isDigit_def asciiNonSpace_def unicode_IsSpace_def)

lemma minus_asciiNonSpace: "asciiNonSpace CHR ''-''"
  by (simp add: asciiNonSpace_def unicode_IsSpace_def byte_def)

lemma fmt_d_first: "\<exists>c cs. fmt_d i = c # cs \<and> asciiNonSpace c"
proof (cases "i < 0")
  case True
  then show ?thesis by (simp add: fmt_d_def minus_asciiNonSpace)
next
  case False
  then have ge: "0 \<le> i" by simp
  obtain c cs where e: "digits i = c # cs"
    using digits_nonempty [of i] by (cases "digits i") auto
  with hd_digits [OF ge] have "asciiNonSpace c" by (simp add: isDigit_asciiNonSpace)
  with e False show ?thesis by (simp add: fmt_d_def)
qed

lemma fmt_d_last: "\<exists>d c. fmt_d i = d @ [c] \<and> asciiNonSpace c"
proof -
  define n where "n = (if i < 0 then - i else i)"
  have ge: "0 \<le> n" by (simp add: n_def)
  have ne: "digits n \<noteq> []" by (rule digits_nonempty)
  then have l: "asciiNonSpace (last (digits n))"
    using digits_all [OF ge, of "last (digits n)"] by (simp add: isDigit_asciiNonSpace)
  show ?thesis
  proof (cases "i < 0")
    case True
    then have "fmt_d i = (CHR ''-'' # butlast (digits n)) @ [last (digits n)]"
      using ne by (simp add: fmt_d_def n_def)
    with l show ?thesis by blast
  next
    case False
    then have "fmt_d i = butlast (digits n) @ [last (digits n)]"
      using ne by (simp add: fmt_d_def n_def)
    with l show ?thesis by blast
  qed
qed

lemma TrimSpace_fmt_d: "strings_TrimSpace (fmt_d i) = fmt_d i"
proof -
  from fmt_d_first [of i] obtain c cs where a: "fmt_d i = c # cs" "asciiNonSpace c"
    by blast
  from fmt_d_last [of i] obtain d l where b: "fmt_d i = d @ [l]" "asciiNonSpace l"
    by blast
  have "trimLeftSpace (fmt_d i) = fmt_d i" using a by (simp add: trimLeftSpace_keep)
  moreover have "trimRightSpace (fmt_d i) = fmt_d i"
    using trimRightSpace_keep [OF b(2), of d] b(1) by simp
  ultimately show ?thesis by (simp add: strings_TrimSpace_def)
qed

lemma TrimSpace_fmt_d_space: "strings_TrimSpace (fmt_d i @ '' '') = fmt_d i"
proof -
  from fmt_d_first [of i] obtain c cs where a: "fmt_d i = c # cs" "asciiNonSpace c"
    by blast
  from fmt_d_last [of i] obtain d l where b: "fmt_d i = d @ [l]" "asciiNonSpace l"
    by blast
  have "trimLeftSpace (fmt_d i @ '' '') = fmt_d i @ '' ''"
    using a by (simp add: trimLeftSpace_keep)
  moreover have "trimRightSpace (fmt_d i) = fmt_d i"
    using trimRightSpace_keep [OF b(2), of d] b(1) by simp
  ultimately show ?thesis by (simp add: strings_TrimSpace_def trimRightSpace_space)
qed

lemma fmt_d_no_hash: "CHR ''#'' \<notin> set (fmt_d i)"
proof -
  have "\<not> isDigit CHR ''#''" by (simp add: isDigit_def byte_def)
  then have "0 \<le> n \<Longrightarrow> CHR ''#'' \<notin> set (digits n)" for n using digits_all by blast
  then show ?thesis by (simp add: fmt_d_def)
qed

lemma extractIndex_referenceText:
  "extractIndex (VString v) = strconv_Atoi (referenceText v)"
proof (cases "CHR ''#'' \<in> set v")
  case True
  define a where "a = takeWhile (\<lambda>c. c \<noteq> CHR ''#'') v"
  have na: "CHR ''#'' \<notin> set a" by (auto simp: a_def dest: set_takeWhileD)
  have dw: "dropWhile (\<lambda>c. c \<noteq> CHR ''#'') v \<noteq> []"
    using True by (simp add: dropWhile_eq_Nil_conv)
  from hd_dropWhile [OF dw] have "hd (dropWhile (\<lambda>c. c \<noteq> CHR ''#'') v) = CHR ''#''"
    by simp
  with dw obtain t where "dropWhile (\<lambda>c. c \<noteq> CHR ''#'') v = CHR ''#'' # t"
    by (cases "dropWhile (\<lambda>c. c \<noteq> CHR ''#'') v") auto
  with takeWhile_dropWhile_id [of "\<lambda>c. c \<noteq> CHR ''#''" v] have v: "v = a @ CHR ''#'' # t"
    by (simp add: a_def)
  have "strings_Contains v ''#''"
    by (simp add: strings_Contains_def v strings_Index_first [OF na])
  moreover have "strings_Split v ''#'' = a # strings_Split t ''#''"
    by (simp add: v strings_Split_first [OF na])
  ultimately show ?thesis by (simp add: referenceText_def a_def [symmetric])
next
  case False
  then have tw: "takeWhile (\<lambda>c. c \<noteq> CHR ''#'') v = v"
    by (auto simp: takeWhile_eq_all_conv)
  from False show ?thesis
    unfolding referenceText_def tw
    by (simp add: strings_Contains_def strings_Index_absent)
qed

lemma parseUintLoop_nondigit:
  "\<not> list_all isDigit b \<Longrightarrow> \<exists>e. parseUintLoop a b = Inl e"
  by (induction b arbitrary: a) (auto simp: Let_def)

lemma Atoi_not_decimal:
  "\<not> isDecimal s \<Longrightarrow> \<exists>e. strconv_Atoi s = Inl (NumError ''Atoi'' s e)"
proof (cases "s = []")
  case True
  then show ?thesis by (simp add: strconv_Atoi_def)
next
  case False
  assume nd: "\<not> isDecimal s"
  define b where "b = (if hd s = CHR ''+'' \<or> hd s = CHR ''-'' then tl s else s)"
  from nd False have "b = [] \<or> \<not> list_all isDigit b"
    by (auto simp: isDecimal_def b_def Let_def)
  then have "\<exists>e. strconv_ParseUint b = Inl e"
    using parseUintLoop_nondigit [of b 0] by (auto simp: strconv_ParseUint_def)
  then show ?thesis using False
    by (auto simp: strconv_Atoi_def Let_def b_def [symmetric])
qed


lemma referenceText_fmt_d: "referenceText (fmt_d n) = fmt_d n"
proof -
  have tw: "takeWhile (\<lambda>c. c \<noteq> CHR ''#'') (fmt_d n) = fmt_d n"
    using fmt_d_no_hash [of n] by (auto simp: takeWhile_eq_all_conv)
  show ?thesis unfolding referenceText_def tw by (rule TrimSpace_fmt_d)
qed

lemma referenceText_fmt_d_comment: "referenceText (fmt_d n @ '' # '' @ t) = fmt_d n"
proof -
  have tw: "takeWhile (\<lambda>c. c \<noteq> CHR ''#'') (fmt_d n @ '' # '' @ t) = fmt_d n @ '' ''"
    using fmt_d_no_hash [of n] by (auto simp: takeWhile_append)
  show ?thesis unfolding referenceText_def tw by (rule TrimSpace_fmt_d_space)
qed


lemma digitsValueFrom_mono:
  "list_all isDigit b \<Longrightarrow> 0 \<le> a \<Longrightarrow> a \<le> digitsValueFrom a b"
proof (induction b arbitrary: a)
  case Nil
  then show ?case by simp
next
  case (Cons c cs)
  then have d: "0 \<le> byte c - 0x30" by (simp add: isDigit_def)
  with Cons.prems have "0 \<le> a * 10 + (byte c - 0x30)" by simp
  with Cons.IH [of "a * 10 + (byte c - 0x30)"] Cons.prems
  have "a * 10 + (byte c - 0x30) \<le> digitsValueFrom (a * 10 + (byte c - 0x30)) cs"
    by simp
  with d Cons.prems show ?case by simp
qed

lemma parseUintLoop_exact:
  "list_all isDigit b \<Longrightarrow> 0 \<le> a \<Longrightarrow> a \<le> maxUint64 \<Longrightarrow>
   parseUintLoop a b =
     (if digitsValueFrom a b \<le> maxUint64 then Inr (digitsValueFrom a b) else Inl ErrRange)"
proof (induction b arbitrary: a)
  case Nil
  then show ?case by simp
next
  case (Cons c cs)
  define n1 where "n1 = a * 10 + (byte c - 0x30)"
  from Cons.prems have dig: "isDigit c" and rest: "list_all isDigit cs" by simp_all
  from dig have d: "0 \<le> byte c - 0x30" by (simp add: isDigit_def)
  with Cons.prems have n1: "0 \<le> n1" "a * 10 \<le> n1" by (simp_all add: n1_def)
  from digitsValueFrom_mono [OF rest n1(1)] have mono: "n1 \<le> digitsValueFrom n1 cs" .
  show ?case
  proof (cases "a \<ge> maxUint64 div 10 + 1")
    case True
    then have "maxUint64 < a * 10" by (simp add: maxUint64_def)
    with n1 mono have "\<not> digitsValueFrom n1 cs \<le> maxUint64" by simp
    with True dig show ?thesis by (simp add: n1_def)
  next
    case False
    show ?thesis
    proof (cases "n1 > maxUint64")
      case True
      with mono have "\<not> digitsValueFrom n1 cs \<le> maxUint64" by simp
      with True False dig show ?thesis by (simp add: n1_def Let_def)
    next
      case big: False
      then have "n1 \<le> maxUint64" by simp
      from Cons.IH [OF rest n1(1) this] big False dig show ?thesis
        by (simp add: n1_def Let_def)
    qed
  qed
qed

lemma Atoi_decimal:
  assumes "isDecimal s"
  shows "strconv_Atoi s =
     (if - (2 ^ 63) \<le> decimalValue s \<and> decimalValue s < 2 ^ 63 then Inr (decimalValue s)
      else Inl (NumError ''Atoi'' s ErrRange))"
proof -
  define b where "b = (if hd s = CHR ''+'' \<or> hd s = CHR ''-'' then tl s else s)"
  from assms have ne: "s \<noteq> []" by (auto simp: isDecimal_def Let_def)
  with assms have b: "b \<noteq> []" "list_all isDigit b"
    by (auto simp: isDecimal_def Let_def b_def)
  define V where "V = digitsValueFrom 0 b"
  from digitsValueFrom_mono [OF b(2), of 0] have V0: "0 \<le> V" by (simp add: V_def)
  have pu: "strconv_ParseUint b = (if V \<le> maxUint64 then Inr V else Inl ErrRange)"
    using b parseUintLoop_exact [OF b(2), of 0]
    by (simp add: strconv_ParseUint_def V_def maxUint64_def)
  have dv: "decimalValue s = (if hd s = CHR ''-'' then - V else V)"
    using ne by (auto simp: decimalValue_def V_def b_def)
  show ?thesis
    using ne pu V0 unfolding dv
    by (auto simp: strconv_Atoi_def Let_def b_def [symmetric] maxUint64_def)
qed

subsection \<open>The abstraction extractor\<close>

lemma checkFileIndices_error:
  "checkFileIndices nfiles name idxs = Some e \<Longrightarrow>
   \<exists>fileIdx. e = Errorf ''invalid file index %d in abstraction %s'' [AInt fileIdx, AString name]"
  by (induction idxs) (auto split: if_splits)

lemma convertAbstractions_error:
  "convertAbstractions nfiles i yas = Inl e \<Longrightarrow>
   \<exists>fileIdx name. e = Errorf ''invalid file index %d in abstraction %s''
                          [AInt fileIdx, AString name]"
proof (induction yas arbitrary: i)
  case Nil
  then show ?case by simp
next
  case (Cons ya yas)
  then show ?case
    by (auto split: option.splits sum.splits dest: checkFileIndices_error)
qed

lemma convertAbstractions_positions:
  "convertAbstractions nfiles i yas = Inr out \<Longrightarrow>
   length out = length yas
   \<and> (\<forall>k < length out.
         abs_Index (out ! k) = int (i + k) \<and> abs_Name (out ! k) = ya_Name (yas ! k)
         \<and> abs_Description (out ! k) = ya_Description (yas ! k)
         \<and> abs_FileIndices (out ! k) = ya_Files (yas ! k))"
proof (induction yas arbitrary: i out)
  case Nil
  then show ?case by simp
next
  case (Cons ya yas)
  from Cons.prems obtain rest where
    rest: "convertAbstractions nfiles (Suc i) yas = Inr rest" and
    out: "out = \<lparr>abs_Index = int i, abs_Name = ya_Name ya,
                 abs_Description = ya_Description ya,
                 abs_FileIndices = ya_Files ya\<rparr> # rest"
    by (auto split: option.splits sum.splits)
  from Cons.IH [OF rest] show ?case
    unfolding out by (auto simp: nth_Cons split: nat.splits)
qed

lemma validateAbstractions_no_abstractions:
  "validateAbstractions input yas = Inl (Errorf ''no abstractions identified'' [])
   \<longleftrightarrow> yas = []"
proof
  assume l: "validateAbstractions input yas = Inl (Errorf ''no abstractions identified'' [])"
  show "yas = []"
  proof (rule ccontr)
    assume "yas \<noteq> []"
    with l show False
      by (auto simp: validateAbstractions_def split: if_splits
          dest!: convertAbstractions_error)
  qed
next
  assume "yas = []"
  then show "validateAbstractions input yas = Inl (Errorf ''no abstractions identified'' [])"
    by (simp add: validateAbstractions_def)
qed

lemma validateAbstractions_zero_ceiling:
  "aa_MaxAbstractions input = 0 \<Longrightarrow> yas \<noteq> [] \<Longrightarrow> validateAbstractions input yas = Inr []"
  by (simp add: validateAbstractions_def)

lemma validateAbstractions_positions:
  assumes "validateAbstractions input yas = Inr out"
  shows "length out = min (length yas) (nat (aa_MaxAbstractions input))
         \<and> (\<forall>k < length out.
               abs_Index (out ! k) = int k \<and> abs_Name (out ! k) = ya_Name (yas ! k)
               \<and> abs_Description (out ! k) = ya_Description (yas ! k)
               \<and> abs_FileIndices (out ! k) = ya_Files (yas ! k))"
proof (cases "int (length yas) > aa_MaxAbstractions input")
  case True
  with assms have c: "convertAbstractions (length (aa_Files input)) 0
      (take (nat (aa_MaxAbstractions input)) yas) = Inr out"
    and nn: "0 \<le> aa_MaxAbstractions input"
    by (auto simp: validateAbstractions_def split: if_splits)
  from convertAbstractions_positions [OF c] True nn show ?thesis by auto
next
  case False
  with assms have c: "convertAbstractions (length (aa_Files input)) 0 yas = Inr out"
    by (auto simp: validateAbstractions_def split: if_splits)
  from convertAbstractions_positions [OF c] False show ?thesis by auto
qed

subsection \<open>The relationship extractor\<close>

lemma convertRelationships_success:
  "convertRelationships n i edges = Inr rels
   \<longleftrightarrow> list_all (edgeInBounds n) edges \<and> rels = map resolvedEdge edges"
proof (induction edges arbitrary: i rels)
  case Nil
  show ?case by auto
next
  case (Cons yr edges)
  show ?case
  proof (cases "edgeInBounds n yr")
    case False
    then show ?thesis
      by (auto simp: edgeInBounds_def split: sum.splits)
  next
    case True
    then obtain f t where ft: "extractIndex (yr_From yr) = Inr f" "extractIndex (yr_To yr) = Inr t"
      "0 \<le> f" "f < int n" "0 \<le> t" "t < int n"
      by (auto simp: edgeInBounds_def split: sum.splits)
    then have re: "resolvedEdge yr = \<lparr>rel_FromIndex = f, rel_ToIndex = t, rel_Label = yr_Label yr\<rparr>"
      by (simp add: resolvedEdge_def resolvedIndex_def)
    show ?thesis
    proof (cases "convertRelationships n (Suc i) edges")
      case (Inl e)
      with Cons.IH [of "Suc i" "map resolvedEdge edges"]
      have "\<not> list_all (edgeInBounds n) edges" by simp
      with Inl ft show ?thesis by simp
    next
      case (Inr r)
      with Cons.IH [of "Suc i" r]
      have "list_all (edgeInBounds n) edges" "r = map resolvedEdge edges" by simp_all
      with Inr ft True re show ?thesis by auto
    qed
  qed
qed

lemma convertRelationships_skip:
  "list_all (edgeInBounds n) pre \<Longrightarrow>
   convertRelationships n i (pre @ rest) =
     (case convertRelationships n (i + length pre) rest of
        Inl e \<Rightarrow> Inl e
      | Inr r \<Rightarrow> Inr (map resolvedEdge pre @ r))"
proof (induction pre arbitrary: i)
  case Nil
  show ?case by (simp split: sum.splits)
next
  case (Cons yr pre)
  then obtain f t where ft: "extractIndex (yr_From yr) = Inr f" "extractIndex (yr_To yr) = Inr t"
    "0 \<le> f" "f < int n" "0 \<le> t" "t < int n"
    by (auto simp: edgeInBounds_def split: sum.splits)
  then have re: "resolvedEdge yr = \<lparr>rel_FromIndex = f, rel_ToIndex = t, rel_Label = yr_Label yr\<rparr>"
    by (simp add: resolvedEdge_def resolvedIndex_def)
  from Cons.prems have "list_all (edgeInBounds n) pre" by simp
  from Cons.IH [OF this, of "Suc i"] ft re show ?case
    by (simp split: sum.splits)
qed

lemma convertRelationships_to_equals_n:
  assumes "list_all (edgeInBounds n) pre"
    and "extractIndex (yr_From yr) = Inr f" and "extractIndex (yr_To yr) = Inr (int n)"
  shows "convertRelationships n 0 (pre @ yr # post) =
     Inl (if f < 0 \<or> int n \<le> f
          then Errorf ''from index %d out of bounds in relationship %d''
                 [AInt f, AInt (int (length pre))]
          else Errorf ''to index %d out of bounds in relationship %d''
                 [AInt (int n), AInt (int (length pre))])"
  using assms(2,3) by (simp add: convertRelationships_skip [OF assms(1)])

lemma convertRelationships_some_to_equals_n:
  assumes "yr \<in> set edges" "extractIndex (yr_To yr) = Inr (int n)"
  shows "\<exists>e. convertRelationships n i edges = Inl e"
proof (cases "convertRelationships n i edges")
  case (Inl e)
  then show ?thesis by blast
next
  case (Inr rels)
  then have "list_all (edgeInBounds n) edges" by (simp add: convertRelationships_success)
  with assms(1) have "edgeInBounds n yr" by (simp add: list_all_iff)
  with assms(2) show ?thesis by (auto simp: edgeInBounds_def split: sum.splits)
qed

subsection \<open>The sequencer\<close>

lemma seenAt_markSeen:
  "seenAt (markSeen seen ks) j \<longleftrightarrow> seenAt seen j \<or> j \<in> set ks"
  by (induction ks arbitrary: seen) (auto simp: seenAt_def)

lemma seenAt_empty: "\<not> seenAt Map.empty j"
  by (simp add: seenAt_def)

lemma markSeen_snoc: "markSeen seen (ks @ [k]) = (markSeen seen ks)(k \<mapsto> True)"
  by (induction ks arbitrary: seen) simp_all

text \<open>The loop passes a prefix that is fine and has not been seen before.\<close>

lemma orderLoop_skip:
  "allResolve pre \<Longrightarrow> distinct (resolved pre) \<Longrightarrow>
   list_all (\<lambda>k. 0 \<le> k \<and> k < int n \<and> \<not> seenAt seen k) (resolved pre) \<Longrightarrow>
   orderLoop n i seen (pre @ rest) =
     (case orderLoop n (i + length pre) (markSeen seen (resolved pre)) rest of
        Inl e \<Rightarrow> Inl e
      | Inr (orderedIndices, seen') \<Rightarrow> Inr (resolved pre @ orderedIndices, seen'))"
proof (induction pre arbitrary: i seen)
  case Nil
  show ?case by (simp add: resolved_def split: sum.splits)
next
  case (Cons v pre)
  from Cons.prems(1) obtain k where k: "extractIndex v = Inr k"
    by (cases "extractIndex v") (simp_all add: allResolve_def)
  then have rk: "resolvedIndex v = k" by (simp add: resolvedIndex_def)
  from Cons.prems rk have kb: "0 \<le> k" "k < int n" "\<not> seenAt seen k" "k \<notin> set (resolved pre)"
    by (simp_all add: resolved_def)
  have a: "allResolve pre" using Cons.prems(1) by (simp add: allResolve_def)
  have d: "distinct (resolved pre)" using Cons.prems(2) by (simp add: resolved_def)
  have l: "list_all (\<lambda>j. 0 \<le> j \<and> j < int n \<and> \<not> seenAt (seen(k \<mapsto> True)) j) (resolved pre)"
    using Cons.prems(3) kb(4) by (auto simp: resolved_def list_all_iff seenAt_def)
  have step: "orderLoop n i seen ((v # pre) @ rest) =
     (case orderLoop n (Suc i) (seen(k \<mapsto> True)) (pre @ rest) of
        Inl e \<Rightarrow> Inl e
      | Inr (orderedIndices, seen') \<Rightarrow> Inr (k # orderedIndices, seen'))"
    using k kb by simp
  have r: "resolved (v # pre) = k # resolved pre" using rk by (simp add: resolved_def)
  show ?case
    unfolding step Cons.IH [OF a d l, of "Suc i"] r
    by (simp split: sum.splits prod.splits)
qed

lemma orderLoop_fine:
  assumes "fine n vals"
  shows "orderLoop n 0 Map.empty vals = Inr (resolved vals, markSeen Map.empty (resolved vals))"
proof -
  from assms have a: "allResolve vals" and d: "distinct (resolved vals)"
    and l: "list_all (\<lambda>k. 0 \<le> k \<and> k < int n \<and> \<not> seenAt Map.empty k) (resolved vals)"
    by (simp_all add: fine_def seenAt_empty)
  from orderLoop_skip [OF a d l, of 0 "[]"] show ?thesis by simp
qed

lemma orderLoop_success:
  "orderLoop n i seen vals = Inr (order, seen') \<Longrightarrow>
   allResolve vals \<and> order = resolved vals \<and> distinct order
   \<and> list_all (\<lambda>k. 0 \<le> k \<and> k < int n \<and> \<not> seenAt seen k) order"
proof (induction vals arbitrary: i seen order)
  case Nil
  then show ?case by (simp add: allResolve_def resolved_def)
next
  case (Cons v vals)
  from Cons.prems obtain k where k: "extractIndex v = Inr k"
    by (cases "extractIndex v") simp_all
  from Cons.prems k have kb: "0 \<le> k" "k < int n" "\<not> seenAt seen k"
    by (auto split: if_splits)
  from Cons.prems k kb obtain r where r: "orderLoop n (Suc i) (seen(k \<mapsto> True)) vals = Inr (r, seen')"
    and o: "order = k # r"
    by (auto split: sum.splits prod.splits)
  from Cons.IH [OF r] have ih: "allResolve vals" "r = resolved vals" "distinct r"
    "list_all (\<lambda>j. 0 \<le> j \<and> j < int n \<and> \<not> seenAt (seen(k \<mapsto> True)) j) r" by blast+
  from ih(4) have "k \<notin> set r" by (auto simp: list_all_iff seenAt_def)
  moreover from ih(4) have "list_all (\<lambda>j. 0 \<le> j \<and> j < int n \<and> \<not> seenAt seen j) r"
    by (auto simp: list_all_iff seenAt_def split: if_splits)
  ultimately show ?case using ih k kb o
    by (simp add: allResolve_def resolved_def resolvedIndex_def)
qed

lemma orderLoop_success_iff:
  "(\<exists>seen'. orderLoop n 0 Map.empty vals = Inr (order, seen'))
   \<longleftrightarrow> fine n vals \<and> order = resolved vals"
proof
  assume "\<exists>seen'. orderLoop n 0 Map.empty vals = Inr (order, seen')"
  then obtain seen' where "orderLoop n 0 Map.empty vals = Inr (order, seen')" ..
  from orderLoop_success [OF this] show "fine n vals \<and> order = resolved vals"
    by (auto simp: fine_def list_all_iff)
next
  assume "fine n vals \<and> order = resolved vals"
  then show "\<exists>seen'. orderLoop n 0 Map.empty vals = Inr (order, seen')"
    by (simp add: orderLoop_fine)
qed

text \<open>Counting: distinct indices in \<open>0 .. n-1\<close> are all of them iff there are \<open>n\<close>.\<close>

lemma distinct_bounded_complete:
  assumes "distinct (ks :: int list)" and "list_all (\<lambda>k. 0 \<le> k \<and> k < int n) ks"
  shows "length ks = n \<longleftrightarrow> set ks = {0..<int n}"
    and "length ks \<le> n"
proof -
  from assms(2) have sub: "set ks \<subseteq> {0..<int n}" by (auto simp: list_all_iff)
  have c: "card (set ks) = length ks" using assms(1) by (rule distinct_card)
  have cn: "card {0..<int n} = n" by simp
  show "length ks \<le> n" using card_mono [OF _ sub] c cn by simp
  show "length ks = n \<longleftrightarrow> set ks = {0..<int n}"
  proof
    assume "length ks = n"
    with c cn have "card (set ks) = card {0..<int n}" by simp
    with sub show "set ks = {0..<int n}" by (simp add: card_subset_eq)
  next
    assume "set ks = {0..<int n}"
    with c cn show "length ks = n" by simp
  qed
qed

lemma validateOrder_fine:
  assumes "fine n vals"
  shows "validateOrder n vals =
     (if set (resolved vals) = {0..<int n} then Inr (resolved vals)
      else Inl (Errorf ''missing abstractions in order: %v''
                  [AIntList (filter (\<lambda>i. i \<notin> set (resolved vals)) (map int [0..<n]))]))"
proof -
  from assms have d: "distinct (resolved vals)"
    and l: "list_all (\<lambda>k. 0 \<le> k \<and> k < int n) (resolved vals)"
    by (simp_all add: fine_def)
  have f: "filter (\<lambda>i. \<not> seenAt (markSeen Map.empty (resolved vals)) i) (map int [0..<n])
           = filter (\<lambda>i. i \<notin> set (resolved vals)) (map int [0..<n])"
    by (simp add: seenAt_markSeen seenAt_empty)
  show ?thesis
    unfolding validateOrder_def orderLoop_fine [OF assms]
    using distinct_bounded_complete(1) [OF d l] f by simp
qed

lemma validateOrder_success:
  "validateOrder n vals = Inr order
   \<longleftrightarrow> allResolve vals \<and> order = resolved vals \<and> distinct order \<and> set order = {0..<int n}"
proof (cases "fine n vals")
  case True
  then show ?thesis using validateOrder_fine [OF True] by (auto simp: fine_def)
next
  case False
  have nl: "\<not> (\<exists>seen'. orderLoop n 0 Map.empty vals = Inr (resolved vals, seen'))"
    using False orderLoop_success_iff [of n vals "resolved vals"] by simp
  have "validateOrder n vals \<noteq> Inr order"
  proof
    assume v: "validateOrder n vals = Inr order"
    then obtain seen' where "orderLoop n 0 Map.empty vals = Inr (order, seen')"
      by (auto simp: validateOrder_def split: sum.splits prod.splits if_splits)
    with orderLoop_success_iff [of n vals order] False show False by blast
  qed
  moreover have "\<not> (allResolve vals \<and> order = resolved vals \<and> distinct order
                     \<and> set order = {0..<int n})"
    using False by (auto simp: fine_def list_all_iff)
  ultimately show ?thesis by simp
qed

lemma validateOrder_first_violation:
  assumes "fine n pre"
  shows "extractIndex v = Inl err \<Longrightarrow>
         validateOrder n (pre @ v # post) =
           Inl (Wrapf ''failed to extract index at position %d: %w'' err
                  [AInt (int (length pre))])"
    and "extractIndex v = Inr idx \<Longrightarrow> idx < 0 \<or> int n \<le> idx \<Longrightarrow>
         validateOrder n (pre @ v # post) =
           Inl (Errorf ''index %d out of bounds at position %d''
                  [AInt idx, AInt (int (length pre))])"
    and "extractIndex v = Inr idx \<Longrightarrow> 0 \<le> idx \<Longrightarrow> idx < int n \<Longrightarrow>
         idx \<in> set (resolved pre) \<Longrightarrow>
         validateOrder n (pre @ v # post) = Inl (Errorf ''duplicate index %d found'' [AInt idx])"
proof -
  from assms have a: "allResolve pre" and d: "distinct (resolved pre)"
    and l: "list_all (\<lambda>k. 0 \<le> k \<and> k < int n \<and> \<not> seenAt Map.empty k) (resolved pre)"
    by (simp_all add: fine_def seenAt_empty)
  have eq: "validateOrder n (pre @ v # post) =
     (case (case orderLoop n (length pre) (markSeen Map.empty (resolved pre)) (v # post) of
              Inl e \<Rightarrow> Inl e
            | Inr (orderedIndices, seen') \<Rightarrow> Inr (resolved pre @ orderedIndices, seen')) of
        Inl e \<Rightarrow> Inl e
      | Inr (orderedIndices, seen) \<Rightarrow>
          if length orderedIndices \<noteq> n
          then Inl (Errorf ''missing abstractions in order: %v''
                      [AIntList (filter (\<lambda>i. \<not> seenAt seen i) (map int [0..<n]))])
          else Inr orderedIndices)"
    unfolding validateOrder_def orderLoop_skip [OF a d l, of 0 "v # post"] by simp
  show "extractIndex v = Inl err \<Longrightarrow>
         validateOrder n (pre @ v # post) =
           Inl (Wrapf ''failed to extract index at position %d: %w'' err
                  [AInt (int (length pre))])"
    unfolding eq by simp
  show "extractIndex v = Inr idx \<Longrightarrow> idx < 0 \<or> int n \<le> idx \<Longrightarrow>
         validateOrder n (pre @ v # post) =
           Inl (Errorf ''index %d out of bounds at position %d''
                  [AInt idx, AInt (int (length pre))])"
    unfolding eq by auto
  show "extractIndex v = Inr idx \<Longrightarrow> 0 \<le> idx \<Longrightarrow> idx < int n \<Longrightarrow>
         idx \<in> set (resolved pre) \<Longrightarrow>
         validateOrder n (pre @ v # post) = Inl (Errorf ''duplicate index %d found'' [AInt idx])"
    unfolding eq by (simp add: seenAt_markSeen)
qed

lemma distinct_count_list:
  "distinct xs \<Longrightarrow> count_list xs k = (if k \<in> set xs then 1 else 0)"
  by (induction xs) auto

lemma validateOrder_missing:
  assumes "fine n vals" and "set (resolved vals) \<noteq> {0..<int n}"
  shows "validateOrder n vals =
           Inl (Errorf ''missing abstractions in order: %v''
                  [AIntList (filter (\<lambda>i. i \<notin> set (resolved vals)) (map int [0..<n]))])"
    and "filter (\<lambda>i. i \<notin> set (resolved vals)) (map int [0..<n]) \<noteq> []"
proof -
  show "validateOrder n vals =
           Inl (Errorf ''missing abstractions in order: %v''
                  [AIntList (filter (\<lambda>i. i \<notin> set (resolved vals)) (map int [0..<n]))])"
    using validateOrder_fine [OF assms(1)] assms(2) by simp
  from assms(1) have sub: "set (resolved vals) \<subseteq> {0..<int n}"
    by (auto simp: fine_def list_all_iff)
  with assms(2) obtain k where k: "k \<in> {0..<int n}" "k \<notin> set (resolved vals)" by blast
  then have "k \<in> set (map int [0..<n])"
    by (auto simp: image_iff intro: bexI [of _ "nat k"])
  with k(2) have "k \<in> set (filter (\<lambda>i. i \<notin> set (resolved vals)) (map int [0..<n]))"
    by simp
  then show "filter (\<lambda>i. i \<notin> set (resolved vals)) (map int [0..<n]) \<noteq> []"
    by (metis empty_iff list.set(1))
qed

subsection \<open>The context builders\<close>

lemma firstNegative_None: "firstNegative idxs = None \<longleftrightarrow> (\<forall>k\<in>set idxs. 0 \<le> k)"
  by (auto simp: firstNegative_def find_None_iff)

lemma firstNegative_Cons:
  "firstNegative (j # idxs) = (if j < 0 then Some j else firstNegative idxs)"
  by (simp add: firstNegative_def)

lemma firstNegative_append:
  "firstNegative (xs @ ys) = (case firstNegative xs of None \<Rightarrow> firstNegative ys | Some k \<Rightarrow> Some k)"
  by (induction xs) (simp_all add: firstNegative_def)

lemma chapterFileContext_skip:
  "chapterFileContext files (belowCorpus files idxs) = chapterFileContext files idxs"
  by (induction idxs) (simp_all add: belowCorpus_def cong: sum.case_cong)

lemma chapterFileContext_panic:
  "firstNegative idxs = Some k \<Longrightarrow>
   chapterFileContext files idxs = Inl (PanicIndexOutOfRange k (length files))"
proof (induction idxs)
  case Nil
  then show ?case by (simp add: firstNegative_def)
next
  case (Cons j idxs)
  show ?case
  proof (cases "j < 0")
    case True
    with Cons.prems have "k = j" by (simp add: firstNegative_Cons)
    with True show ?thesis by (simp add: goIndex_def)
  next
    case False
    with Cons.prems have "firstNegative idxs = Some k" by (simp add: firstNegative_Cons)
    from Cons.IH [OF this] False show ?thesis by (simp add: goIndex_def)
  qed
qed

lemma chapterFileContext_safe:
  "(\<exists>s. chapterFileContext files idxs = Inr s) \<longleftrightarrow> firstNegative idxs = None"
proof (induction idxs)
  case Nil
  show ?case by (simp add: firstNegative_def)
next
  case (Cons j idxs)
  show ?case
  proof (cases "j < 0")
    case True
    then show ?thesis by (simp add: goIndex_def firstNegative_Cons)
  next
    case False
    with Cons.IH show ?thesis
      by (cases "chapterFileContext files idxs") (auto simp: goIndex_def firstNegative_Cons)
  qed
qed

lemma relationshipFileSamples_skip:
  "relationshipFileSamples files (belowCorpus files idxs) = relationshipFileSamples files idxs"
  by (induction idxs) (simp_all add: belowCorpus_def cong: sum.case_cong)

lemma relationshipFileSamples_panic:
  "firstNegative idxs = Some k \<Longrightarrow>
   relationshipFileSamples files idxs = Inl (PanicIndexOutOfRange k (length files))"
proof (induction idxs)
  case Nil
  then show ?case by (simp add: firstNegative_def)
next
  case (Cons j idxs)
  show ?case
  proof (cases "j < 0")
    case True
    with Cons.prems have "k = j" by (simp add: firstNegative_Cons)
    with True show ?thesis by (simp add: goIndex_def)
  next
    case False
    with Cons.prems have "firstNegative idxs = Some k" by (simp add: firstNegative_Cons)
    from Cons.IH [OF this] False show ?thesis by (simp add: goIndex_def)
  qed
qed

lemma relationshipFileSamples_safe:
  "(\<exists>s. relationshipFileSamples files idxs = Inr s) \<longleftrightarrow> firstNegative idxs = None"
proof (induction idxs)
  case Nil
  show ?case by (simp add: firstNegative_def)
next
  case (Cons j idxs)
  show ?case
  proof (cases "j < 0")
    case True
    then show ?thesis by (simp add: goIndex_def firstNegative_Cons)
  next
    case False
    with Cons.IH show ?thesis
      by (cases "relationshipFileSamples files idxs") (auto simp: goIndex_def firstNegative_Cons)
  qed
qed

lemma relationshipCodeContext_skip:
  "relationshipCodeContext files (map (dropAboveCorpus files) abstractions)
   = relationshipCodeContext files abstractions"
  by (induction abstractions)
    (simp_all add: dropAboveCorpus_def relationshipFileSamples_skip cong: sum.case_cong)

lemma relationshipCodeContext_panic:
  "firstNegative (concat (map abs_FileIndices abstractions)) = Some k \<Longrightarrow>
   relationshipCodeContext files abstractions = Inl (PanicIndexOutOfRange k (length files))"
proof (induction abstractions)
  case Nil
  then show ?case by (simp add: firstNegative_def)
next
  case (Cons abstr abstractions)
  show ?case
  proof (cases "firstNegative (abs_FileIndices abstr)")
    case (Some j)
    with Cons.prems have "k = j" by (simp add: firstNegative_append)
    with relationshipFileSamples_panic [OF Some, of files] show ?thesis by simp
  next
    case None
    with relationshipFileSamples_safe [of files "abs_FileIndices abstr"]
    obtain s where s: "relationshipFileSamples files (abs_FileIndices abstr) = Inr s" by blast
    from None Cons.prems have "firstNegative (concat (map abs_FileIndices abstractions)) = Some k"
      by (simp add: firstNegative_append)
    from Cons.IH [OF this] s show ?thesis by simp
  qed
qed

lemma relationshipCodeContext_safe:
  "(\<exists>s. relationshipCodeContext files abstractions = Inr s)
   \<longleftrightarrow> firstNegative (concat (map abs_FileIndices abstractions)) = None"
proof (induction abstractions)
  case Nil
  show ?case by (simp add: firstNegative_def)
next
  case (Cons abstr abstractions)
  show ?case
  proof (cases "firstNegative (abs_FileIndices abstr)")
    case (Some j)
    with relationshipFileSamples_panic [OF Some, of files] show ?thesis
      by (simp add: firstNegative_append)
  next
    case None
    with relationshipFileSamples_safe [of files "abs_FileIndices abstr"]
    obtain s where s: "relationshipFileSamples files (abs_FileIndices abstr) = Inr s" by blast
    with None Cons.IH show ?thesis
      by (cases "relationshipCodeContext files abstractions") (auto simp: firstNegative_append)
  qed
qed

lemma abstractionListing_dropAboveCorpus:
  "abstractionListing (map (dropAboveCorpus files) abstractions) = abstractionListing abstractions"
  by (simp add: abstractionListing_def dropAboveCorpus_def comp_def)

subsection \<open>The chapter composer\<close>








subsection \<open>The structured-response extractor\<close>

lemma hd_strings_Split: "sep \<noteq> [] \<Longrightarrow> hd (strings_Split s sep) = textBefore sep s"
  by (subst strings_Split.simps) (simp add: textBefore_def split: option.split)

lemma strings_Split_second:
  assumes "sep \<noteq> []" and "strings_Index s sep = Some m"
  shows "length (strings_Split s sep) > 1"
    and "strings_Split s sep ! 1 = textBefore sep (textAfter sep s)"
proof -
  let ?rest = "drop (m + length sep) s"
  have s: "strings_Split s sep = take m s # strings_Split ?rest sep"
    using assms by (subst strings_Split.simps) simp
  have ne: "strings_Split ?rest sep \<noteq> []" using assms(1) by (rule strings_Split_nonempty)
  then show "length (strings_Split s sep) > 1" unfolding s by (cases "strings_Split ?rest sep") simp_all
  have "strings_Split s sep ! 1 = hd (strings_Split ?rest sep)"
    unfolding s using ne by (simp add: hd_conv_nth)
  also have "\<dots> = textBefore sep ?rest" using assms(1) by (rule hd_strings_Split)
  finally show "strings_Split s sep ! 1 = textBefore sep (textAfter sep s)"
    using assms(2) by (simp add: textAfter_def)
qed

lemma extractYAMLBlock_cuts:
  "extractYAMLBlock response =
     (if strings_Contains response ''```yaml''
      then textBefore ''```'' (textBefore ''```yaml'' (textAfter ''```yaml'' response))
      else if strings_Contains response ''```''
      then textBefore ''```'' (textAfter ''```'' response)
      else response)"
proof (cases "strings_Index response ''```yaml''")
  case (Some m)
  have ne: "''```yaml'' \<noteq> []" "''```'' \<noteq> []" by simp_all
  from strings_Split_second [OF ne(1) Some] Some show ?thesis
    by (simp add: extractYAMLBlock_def strings_Contains_def Let_def hd_strings_Split [OF ne(2)])
next
  case None
  show ?thesis
  proof (cases "strings_Index response ''```''")
    case (Some m)
    have ne: "''```'' \<noteq> []" by simp
    from strings_Split_second [OF ne Some] Some None show ?thesis
      by (simp add: extractYAMLBlock_def strings_Contains_def Let_def)
  next
    case n: None
    with None show ?thesis by (simp add: extractYAMLBlock_def strings_Contains_def)
  qed
qed

section \<open>The claims\<close>

subsection \<open>C4: the cross-reference resolver\<close>

text \<open>
  C4, as the code has it. \<open>extractIndex\<close> returns a bare integer as it is and fails
  with the unexpected-type error on every value that is neither an integer nor a
  string. On a string it looks only at the text before the first \<open>#\<close> (the whole
  string when there is none), trimmed of white space: the string resolves to \<open>n\<close>
  if and only if that text is a decimal numeral (digits with an optional sign,
  leading zeros allowed) whose value \<open>n\<close> fits a 64-bit \<open>int\<close>, and in every other
  case it fails with the \<open>strconv\<close> error naming that text. In particular, for
  every \<open>n\<close> in the 64-bit range the strings \<open>"n"\<close> and \<open>"n # <trailing text>"\<close>
  resolve to \<open>n\<close>, and \<open>"3"\<close> and \<open>"3 # Foo"\<close> both resolve to 3.
\<close>

theorem extractIndex_resolves_decimal_reference:
  "extractIndex (VInt n) = Inr n
   \<and> extractIndex (VOther ty) = Inl (Errorf ''unexpected type %T for index'' [AString ty])
   \<and> (extractIndex (VString v) = Inr n \<longleftrightarrow>
        isDecimal (referenceText v) \<and> n = decimalValue (referenceText v)
        \<and> - (2 ^ 63) \<le> n \<and> n < 2 ^ 63)
   \<and> (\<not> (isDecimal (referenceText v)
           \<and> - (2 ^ 63) \<le> decimalValue (referenceText v)
           \<and> decimalValue (referenceText v) < 2 ^ 63) \<longrightarrow>
        (\<exists>e. extractIndex (VString v) = Inl (NumError ''Atoi'' (referenceText v) e)))
   \<and> (- (2 ^ 63) \<le> n \<and> n < 2 ^ 63 \<longrightarrow>
        extractIndex (VString (fmt_d n)) = Inr n
        \<and> extractIndex (VString (fmt_d n @ '' # '' @ t)) = Inr n)
   \<and> extractIndex (VString ''3'') = Inr 3
   \<and> extractIndex (VString ''3 # Foo'') = Inr 3"
proof -
  define p where "p = referenceText v"
  have ex: "extractIndex (VString v) = strconv_Atoi p"
    by (simp only: extractIndex_referenceText p_def)
  have iff: "extractIndex (VString v) = Inr n \<longleftrightarrow>
      isDecimal p \<and> n = decimalValue p \<and> - (2 ^ 63) \<le> n \<and> n < 2 ^ 63"
  proof (cases "isDecimal p")
    case True
    show ?thesis unfolding ex Atoi_decimal [OF True] using True by auto
  next
    case False
    from Atoi_not_decimal [OF False] False show ?thesis unfolding ex by auto
  qed
  have fails: "\<exists>e. extractIndex (VString v) = Inl (NumError ''Atoi'' p e)"
    if "\<not> (isDecimal p \<and> - (2 ^ 63) \<le> decimalValue p \<and> decimalValue p < 2 ^ 63)"
  proof (cases "isDecimal p")
    case True
    with that show ?thesis unfolding ex Atoi_decimal [OF True] by auto
  next
    case False
    from Atoi_not_decimal [OF False] show ?thesis unfolding ex .
  qed
  have a: "extractIndex (VString ''3'') = Inr 3" by code_simp
  have b: "extractIndex (VString ''3 # Foo'') = Inr 3" by code_simp
  have c: "extractIndex (VString (fmt_d n)) = Inr n
           \<and> extractIndex (VString (fmt_d n @ '' # '' @ t)) = Inr n"
    if "- (2 ^ 63) \<le> n" "n < 2 ^ 63"
    using that
    by (simp only: extractIndex_referenceText referenceText_fmt_d
        referenceText_fmt_d_comment Atoi_fmt_d)
  have e: "extractIndex (VInt n) = Inr n" by simp
  have f: "extractIndex (VOther ty) = Inl (Errorf ''unexpected type %T for index'' [AString ty])"
    by simp
  from a b c e f iff fails show ?thesis unfolding p_def by blast
qed

text \<open>
  The theorem at concrete references: a padded numeral with leading zeros, a
  reference with a comment, and a reference whose text is no numeral.
\<close>

theorem extractIndex_resolves_decimal_reference_witness:
  "(isDecimal (referenceText ''  007  '') \<and> 7 = decimalValue (referenceText ''  007  '')
      \<and> - (2 ^ 63) \<le> (7::int) \<and> (7::int) < 2 ^ 63)
   \<and> extractIndex (VString ''  007  '') = Inr 7
   \<and> extractIndex (VString (fmt_d 7)) = Inr 7
   \<and> extractIndex (VString (fmt_d 7 @ '' # '' @ ''Bar'')) = Inr 7
   \<and> \<not> isDecimal (referenceText ''seven # 7'')
   \<and> (\<exists>e. extractIndex (VString ''seven # 7'')
              = Inl (NumError ''Atoi'' (referenceText ''seven # 7'') e))"
proof -
  have d: "isDecimal (referenceText ''  007  '')" by code_simp
  have v: "7 = decimalValue (referenceText ''  007  '')" by code_simp
  have r: "- (2 ^ 63) \<le> (7::int) \<and> (7::int) < 2 ^ 63" by simp
  have nd: "\<not> isDecimal (referenceText ''seven # 7'')" by code_simp
  from d v r nd
    extractIndex_resolves_decimal_reference [of 7 "''float64''" "''  007  ''" "''Bar''"]
    extractIndex_resolves_decimal_reference [of 7 "''float64''" "''seven # 7''" "''Bar''"]
  show ?thesis by blast
qed

text \<open>
  C4 as the specification states it fails on the code. The string \<open>"+3"\<close> is
  neither the integer 3 written out nor of the form \<open>"3 # <trailing text>"\<close>, yet
  it resolves to 3 (and so do \<open>"3#Foo"\<close> and \<open>"  007  "\<close>, to 3 and 7); and the
  integer \<open>2^63\<close> written out does not resolve to \<open>2^63\<close>: it fails with the range
  error of \<open>strconv.Atoi\<close>.
\<close>

theorem extractIndex_other_shapes_counterexample:
  "extractIndex (VString ''+3'') = Inr 3
   \<and> ''+3'' \<noteq> fmt_d 3 \<and> \<not> prefix (fmt_d 3 @ '' # '') ''+3''
   \<and> extractIndex (VString ''3#Foo'') = Inr 3
   \<and> ''3#Foo'' \<noteq> fmt_d 3 \<and> \<not> prefix (fmt_d 3 @ '' # '') ''3#Foo''
   \<and> extractIndex (VString ''  007  '') = Inr 7
   \<and> ''  007  '' \<noteq> fmt_d 7 \<and> \<not> prefix (fmt_d 7 @ '' # '') ''  007  ''
   \<and> fmt_d 9223372036854775808 = ''9223372036854775808''
   \<and> extractIndex (VString ''9223372036854775808'')
       = Inl (NumError ''Atoi'' ''9223372036854775808'' ErrRange)"
  by code_simp

subsection \<open>C2 and C10: the abstraction extractor\<close>

text \<open>
  C2. In every successful run of \<open>AnalyzeAbstractions\<close> the \<open>i\<close>-th abstraction of
  the output has index \<open>i\<close> (0-based, contiguous). The generator cannot propose
  another index: the struct the response is decoded into has the fields
  \<open>name\<close>, \<open>description\<close> and \<open>files\<close> only, and the index is the position of the
  loop. The second half says the same from the decoded list \<open>yas\<close> on, with the
  other three fields taken over from the \<open>i\<close>-th decoded entry.
\<close>

theorem abstraction_index_is_output_position:
  "(AnalyzeAbstractions NewClient Unmarshal input = Inr out \<longrightarrow>
      (\<forall>i < length out. abs_Index (out ! i) = int i))
   \<and> (validateAbstractions input yas = Inr out \<longrightarrow>
        length out = min (length yas) (nat (aa_MaxAbstractions input))
        \<and> (\<forall>i < length out.
              abs_Index (out ! i) = int i \<and> abs_Name (out ! i) = ya_Name (yas ! i)
              \<and> abs_Description (out ! i) = ya_Description (yas ! i)
              \<and> abs_FileIndices (out ! i) = ya_Files (yas ! i)))"
proof (intro conjI impI)
  assume run: "AnalyzeAbstractions NewClient Unmarshal input = Inr out"
  then obtain parsed where "validateAbstractions input parsed = Inr out"
    by (auto simp: AnalyzeAbstractions_def split: if_splits sum.splits)
  from validateAbstractions_positions [OF this]
  show "\<forall>i < length out. abs_Index (out ! i) = int i" by blast
next
  assume v: "validateAbstractions input yas = Inr out"
  from validateAbstractions_positions [OF v]
  show "length out = min (length yas) (nat (aa_MaxAbstractions input))" by blast
  from validateAbstractions_positions [OF v]
  show "\<forall>i < length out.
          abs_Index (out ! i) = int i \<and> abs_Name (out ! i) = ya_Name (yas ! i)
          \<and> abs_Description (out ! i) = ya_Description (yas ! i)
          \<and> abs_FileIndices (out ! i) = ya_Files (yas ! i)" by blast
qed

text \<open>
  A run over three files in which the generator names two abstractions: they
  come out with the indices 0 and 1.
\<close>

theorem abstraction_index_is_output_position_witness:
  "AnalyzeAbstractions (Inr (\<lambda>prompt system. Inr ''- name: Walker''))
     (\<lambda>text. Inr [\<lparr>ya_Name = ''Walker'', ya_Description = ''walks'', ya_Files = [0, 1]\<rparr>,
                   \<lparr>ya_Name = ''Writer'', ya_Description = ''writes'', ya_Files = [2]\<rparr>])
     \<lparr>aa_Files = [\<lparr>file_Index = 0, file_Path = ''a.go'', file_Content = ''package a''\<rparr>,
                  \<lparr>file_Index = 1, file_Path = ''b.go'', file_Content = ''package b''\<rparr>,
                  \<lparr>file_Index = 2, file_Path = ''c.go'', file_Content = ''package c''\<rparr>],
       aa_ProjectName = ''demo'', aa_MaxAbstractions = 10\<rparr>
   = Inr [\<lparr>abs_Index = 0, abs_Name = ''Walker'', abs_Description = ''walks'',
            abs_FileIndices = [0, 1]\<rparr>,
          \<lparr>abs_Index = 1, abs_Name = ''Writer'', abs_Description = ''writes'',
            abs_FileIndices = [2]\<rparr>]
   \<and> abs_Index ([\<lparr>abs_Index = 0, abs_Name = ''Walker'', abs_Description = ''walks'',
            abs_FileIndices = [0, 1]\<rparr>,
          \<lparr>abs_Index = 1, abs_Name = ''Writer'', abs_Description = ''writes'',
            abs_FileIndices = [2]\<rparr>] ! 0) = int 0
   \<and> abs_Index ([\<lparr>abs_Index = 0, abs_Name = ''Walker'', abs_Description = ''walks'',
            abs_FileIndices = [0, 1]\<rparr>,
          \<lparr>abs_Index = 1, abs_Name = ''Writer'', abs_Description = ''writes'',
            abs_FileIndices = [2]\<rparr>] ! 1) = int 1"
proof -
  let ?out = "[\<lparr>abs_Index = 0, abs_Name = ''Walker'', abs_Description = ''walks'',
            abs_FileIndices = [0, 1]\<rparr>,
          \<lparr>abs_Index = 1, abs_Name = ''Writer'', abs_Description = ''writes'',
            abs_FileIndices = [2]\<rparr>]"
  let ?U = "\<lambda>text :: string. (Inr [\<lparr>ya_Name = ''Walker'', ya_Description = ''walks'', ya_Files = [0, 1]\<rparr>,
                   \<lparr>ya_Name = ''Writer'', ya_Description = ''writes'', ya_Files = [2]\<rparr>]
                   :: error + yamlAbstraction list)"
  let ?C = "Inr (\<lambda>prompt system. Inr ''- name: Walker'') :: error + client"
  let ?I = "\<lparr>aa_Files = [\<lparr>file_Index = 0, file_Path = ''a.go'', file_Content = ''package a''\<rparr>,
                  \<lparr>file_Index = 1, file_Path = ''b.go'', file_Content = ''package b''\<rparr>,
                  \<lparr>file_Index = 2, file_Path = ''c.go'', file_Content = ''package c''\<rparr>],
       aa_ProjectName = ''demo'', aa_MaxAbstractions = 10\<rparr>"
  have run: "AnalyzeAbstractions ?C ?U ?I = Inr ?out"
    by (simp add: AnalyzeAbstractions_def validateAbstractions_def)
  from run abstraction_index_is_output_position [of ?C ?U ?I ?out]
  show ?thesis by simp
qed

text \<open>
  C10. The check for an empty list comes before the truncation to the ceiling:
  \<open>AnalyzeAbstractions\<close> fails with "no abstractions identified" exactly when
  the response was obtained and decoded and the decoded list is empty, before
  any truncation. So with \<open>MaxAbstractions = 0\<close> and a decoded list that is not
  empty, the stage succeeds with the empty list of abstractions.
\<close>

theorem empty_check_precedes_truncation:
  "(validateAbstractions input yas = Inl (Errorf ''no abstractions identified'' [])
      \<longleftrightarrow> yas = [])
   \<and> (AnalyzeAbstractions NewClient Unmarshal input
        = Inl (Errorf ''no abstractions identified'' [])
      \<longleftrightarrow> length (aa_Files input) \<noteq> 0
          \<and> (\<exists>client response. NewClient = Inr client
                \<and> client (analyzeAbstractionsPrompt input) analyzeAbstractionsSystem
                    = Inr response
                \<and> Unmarshal (extractYAMLBlock response) = Inr []))
   \<and> (aa_MaxAbstractions input = 0 \<and> yas \<noteq> [] \<longrightarrow> validateAbstractions input yas = Inr [])
   \<and> (aa_MaxAbstractions input = 0 \<and> yas \<noteq> [] \<and> length (aa_Files input) \<noteq> 0
        \<and> NewClient = Inr client
        \<and> client (analyzeAbstractionsPrompt input) analyzeAbstractionsSystem = Inr response
        \<and> Unmarshal (extractYAMLBlock response) = Inr yas
      \<longrightarrow> AnalyzeAbstractions NewClient Unmarshal input = Inr [])"
proof (intro conjI)
  show "validateAbstractions input yas = Inl (Errorf ''no abstractions identified'' [])
      \<longleftrightarrow> yas = []"
    by (rule validateAbstractions_no_abstractions)
  show "AnalyzeAbstractions NewClient Unmarshal input
        = Inl (Errorf ''no abstractions identified'' [])
      \<longleftrightarrow> length (aa_Files input) \<noteq> 0
          \<and> (\<exists>client response. NewClient = Inr client
                \<and> client (analyzeAbstractionsPrompt input) analyzeAbstractionsSystem
                    = Inr response
                \<and> Unmarshal (extractYAMLBlock response) = Inr [])"
    by (auto simp: AnalyzeAbstractions_def validateAbstractions_no_abstractions
        split: sum.splits)
  show "aa_MaxAbstractions input = 0 \<and> yas \<noteq> [] \<longrightarrow> validateAbstractions input yas = Inr []"
    by (simp add: validateAbstractions_zero_ceiling)
  show "aa_MaxAbstractions input = 0 \<and> yas \<noteq> [] \<and> length (aa_Files input) \<noteq> 0
        \<and> NewClient = Inr client
        \<and> client (analyzeAbstractionsPrompt input) analyzeAbstractionsSystem = Inr response
        \<and> Unmarshal (extractYAMLBlock response) = Inr yas
      \<longrightarrow> AnalyzeAbstractions NewClient Unmarshal input = Inr []"
    by (auto simp: AnalyzeAbstractions_def validateAbstractions_zero_ceiling)
qed

text \<open>
  A run with the ceiling 0 in which the generator names one abstraction: the
  stage succeeds with no abstraction.
\<close>

theorem empty_check_precedes_truncation_witness:
  "AnalyzeAbstractions (Inr (\<lambda>prompt system. Inr ''- name: Walker''))
     (\<lambda>text. Inr [\<lparr>ya_Name = ''Walker'', ya_Description = ''walks'', ya_Files = [0]\<rparr>])
     \<lparr>aa_Files = [\<lparr>file_Index = 0, file_Path = ''a.go'', file_Content = ''package a''\<rparr>],
       aa_ProjectName = ''demo'', aa_MaxAbstractions = 0\<rparr>
   = Inr []"
  using empty_check_precedes_truncation
    [of "\<lparr>aa_Files = [\<lparr>file_Index = 0, file_Path = ''a.go'', file_Content = ''package a''\<rparr>],
          aa_ProjectName = ''demo'', aa_MaxAbstractions = 0\<rparr>"
        "[\<lparr>ya_Name = ''Walker'', ya_Description = ''walks'', ya_Files = [0]\<rparr>]"
        "Inr (\<lambda>prompt system. Inr ''- name: Walker'')"
        "\<lambda>text. Inr [\<lparr>ya_Name = ''Walker'', ya_Description = ''walks'', ya_Files = [0]\<rparr>]"
        "\<lambda>prompt system. Inr ''- name: Walker''" "''- name: Walker''"]
  by simp

subsection \<open>C3: the relationship extractor\<close>

text \<open>
  C3. Take a run of \<open>AnalyzeRelationships\<close> over \<open>N\<close> abstractions in which the
  response was obtained and decoded, with the edge list \<open>yd_Details yd\<close>. The
  stage succeeds if and only if both ends of every edge resolve to indices in
  \<open>0 .. N-1\<close>, and then it returns every edge of the list, in order, with its two
  resolved indices and its label: nothing is dropped or merged, so
  self-referencing and duplicate edges come out as they went in. The edges are
  checked in order and the first violation ends the stage: where the edges before
  position \<open>k\<close> are within bounds and the edge at \<open>k\<close> has \<open>toIndex = N\<close>, the stage
  fails with an out-of-bounds error that carries the position \<open>k\<close> (the one for the
  \<open>to\<close> index with the value \<open>N\<close>, unless the \<open>from\<close> index of that edge is out of
  bounds itself and is reported first). An edge with \<open>toIndex = N\<close> anywhere in
  the list makes the stage fail.
\<close>

theorem relationship_edges_within_bounds:
  "length (ar_Abstractions input) \<noteq> 0
   \<and> relationshipCodeContext (ar_Files input) (ar_Abstractions input) = Inr codeContext
   \<and> NewClient = Inr client
   \<and> client (analyzeRelationshipsPrompt input codeContext) analyzeRelationshipsSystem
       = Inr response
   \<and> Unmarshal (extractYAMLBlock response) = Inr yd
   \<longrightarrow>
     (AnalyzeRelationships NewClient Unmarshal input = Inr out
        \<longleftrightarrow> list_all (edgeInBounds (length (ar_Abstractions input))) (yd_Details yd)
            \<and> out = \<lparr>rd_Summary = yd_Summary yd,
                       rd_Details = map resolvedEdge (yd_Details yd)\<rparr>)
     \<and> (yd_Details yd = pre @ yr # post
          \<and> list_all (edgeInBounds (length (ar_Abstractions input))) pre
          \<and> extractIndex (yr_From yr) = Inr f
          \<and> extractIndex (yr_To yr) = Inr (int (length (ar_Abstractions input)))
        \<longrightarrow> AnalyzeRelationships NewClient Unmarshal input =
              Inl (if f < 0 \<or> int (length (ar_Abstractions input)) \<le> f
                   then Errorf ''from index %d out of bounds in relationship %d''
                          [AInt f, AInt (int (length pre))]
                   else Errorf ''to index %d out of bounds in relationship %d''
                          [AInt (int (length (ar_Abstractions input))),
                           AInt (int (length pre))]))
     \<and> (yr \<in> set (yd_Details yd)
          \<and> extractIndex (yr_To yr) = Inr (int (length (ar_Abstractions input)))
        \<longrightarrow> (\<exists>e. AnalyzeRelationships NewClient Unmarshal input = Inl e))"
proof (intro impI, elim conjE)
  let ?n = "length (ar_Abstractions input)"
  assume h: "?n \<noteq> 0"
    "relationshipCodeContext (ar_Files input) (ar_Abstractions input) = Inr codeContext"
    "NewClient = Inr client"
    "client (analyzeRelationshipsPrompt input codeContext) analyzeRelationshipsSystem
       = Inr response"
    "Unmarshal (extractYAMLBlock response) = Inr yd"
  have run: "AnalyzeRelationships NewClient Unmarshal input =
      (case convertRelationships ?n 0 (yd_Details yd) of
         Inl e \<Rightarrow> Inl e
       | Inr relationships \<Rightarrow>
           Inr \<lparr>rd_Summary = yd_Summary yd, rd_Details = relationships\<rparr>)"
    using h by (simp add: AnalyzeRelationships_def)
  have a: "AnalyzeRelationships NewClient Unmarshal input = Inr out
        \<longleftrightarrow> list_all (edgeInBounds ?n) (yd_Details yd)
            \<and> out = \<lparr>rd_Summary = yd_Summary yd,
                       rd_Details = map resolvedEdge (yd_Details yd)\<rparr>"
  proof (cases "convertRelationships ?n 0 (yd_Details yd)")
    case (Inl e)
    with convertRelationships_success [of ?n 0 "yd_Details yd" "map resolvedEdge (yd_Details yd)"]
    have "\<not> list_all (edgeInBounds ?n) (yd_Details yd)" by simp
    with Inl run show ?thesis by simp
  next
    case (Inr rels)
    with convertRelationships_success [of ?n 0 "yd_Details yd" rels]
    have "list_all (edgeInBounds ?n) (yd_Details yd)" "rels = map resolvedEdge (yd_Details yd)"
      by simp_all
    with Inr run show ?thesis by auto
  qed
  have b: "AnalyzeRelationships NewClient Unmarshal input =
              Inl (if f < 0 \<or> int ?n \<le> f
                   then Errorf ''from index %d out of bounds in relationship %d''
                          [AInt f, AInt (int (length pre))]
                   else Errorf ''to index %d out of bounds in relationship %d''
                          [AInt (int ?n), AInt (int (length pre))])"
    if "yd_Details yd = pre @ yr # post" "list_all (edgeInBounds ?n) pre"
      "extractIndex (yr_From yr) = Inr f" "extractIndex (yr_To yr) = Inr (int ?n)"
    unfolding run that(1) convertRelationships_to_equals_n [OF that(2,3,4)] by simp
  have c: "\<exists>e. AnalyzeRelationships NewClient Unmarshal input = Inl e"
    if "yr \<in> set (yd_Details yd)" "extractIndex (yr_To yr) = Inr (int ?n)"
    using convertRelationships_some_to_equals_n [OF that, of 0] run by auto
  from a b c show
    "(AnalyzeRelationships NewClient Unmarshal input = Inr out
        \<longleftrightarrow> list_all (edgeInBounds ?n) (yd_Details yd)
            \<and> out = \<lparr>rd_Summary = yd_Summary yd,
                       rd_Details = map resolvedEdge (yd_Details yd)\<rparr>)
     \<and> (yd_Details yd = pre @ yr # post
          \<and> list_all (edgeInBounds ?n) pre
          \<and> extractIndex (yr_From yr) = Inr f
          \<and> extractIndex (yr_To yr) = Inr (int ?n)
        \<longrightarrow> AnalyzeRelationships NewClient Unmarshal input =
              Inl (if f < 0 \<or> int ?n \<le> f
                   then Errorf ''from index %d out of bounds in relationship %d''
                          [AInt f, AInt (int (length pre))]
                   else Errorf ''to index %d out of bounds in relationship %d''
                          [AInt (int ?n), AInt (int (length pre))]))
     \<and> (yr \<in> set (yd_Details yd)
          \<and> extractIndex (yr_To yr) = Inr (int ?n)
        \<longrightarrow> (\<exists>e. AnalyzeRelationships NewClient Unmarshal input = Inl e))"
    by blast
qed

text \<open>
  Two runs over two abstractions. In the first the response has a
  self-referencing edge and the same edge twice: the stage succeeds and returns
  the three edges. In the second the edge at position 1 points to index 2: the
  stage fails with the out-of-bounds error for that value and that position.
\<close>

theorem relationship_edges_within_bounds_witness:
  "AnalyzeRelationships (Inr (\<lambda>prompt system. Inr ''summary: s''))
     (\<lambda>text. Inr \<lparr>yd_Summary = ''s'',
                   yd_Details = [\<lparr>yr_From = VInt 0, yr_To = VInt 0, yr_Label = ''self''\<rparr>,
                                 \<lparr>yr_From = VInt 0, yr_To = VString ''1 # B'', yr_Label = ''uses''\<rparr>,
                                 \<lparr>yr_From = VInt 0, yr_To = VString ''1 # B'', yr_Label = ''uses''\<rparr>]\<rparr>)
     \<lparr>ar_Abstractions = [\<lparr>abs_Index = 0, abs_Name = ''A'', abs_Description = ''a'', abs_FileIndices = []\<rparr>,
                         \<lparr>abs_Index = 1, abs_Name = ''B'', abs_Description = ''b'', abs_FileIndices = []\<rparr>],
       ar_Files = [], ar_ProjectName = ''demo''\<rparr>
   = Inr \<lparr>rd_Summary = ''s'',
          rd_Details = [\<lparr>rel_FromIndex = 0, rel_ToIndex = 0, rel_Label = ''self''\<rparr>,
                        \<lparr>rel_FromIndex = 0, rel_ToIndex = 1, rel_Label = ''uses''\<rparr>,
                        \<lparr>rel_FromIndex = 0, rel_ToIndex = 1, rel_Label = ''uses''\<rparr>]\<rparr>
   \<and> AnalyzeRelationships (Inr (\<lambda>prompt system. Inr ''summary: s''))
     (\<lambda>text. Inr \<lparr>yd_Summary = ''s'',
                   yd_Details = [\<lparr>yr_From = VInt 0, yr_To = VString ''1 # B'', yr_Label = ''uses''\<rparr>,
                                 \<lparr>yr_From = VInt 0, yr_To = VInt 2, yr_Label = ''uses''\<rparr>]\<rparr>)
     \<lparr>ar_Abstractions = [\<lparr>abs_Index = 0, abs_Name = ''A'', abs_Description = ''a'', abs_FileIndices = []\<rparr>,
                         \<lparr>abs_Index = 1, abs_Name = ''B'', abs_Description = ''b'', abs_FileIndices = []\<rparr>],
       ar_Files = [], ar_ProjectName = ''demo''\<rparr>
   = Inl (Errorf ''to index %d out of bounds in relationship %d'' [AInt 2, AInt 1])"
proof -
  let ?I = "\<lparr>ar_Abstractions = [\<lparr>abs_Index = 0, abs_Name = ''A'', abs_Description = ''a'', abs_FileIndices = []\<rparr>,
                         \<lparr>abs_Index = 1, abs_Name = ''B'', abs_Description = ''b'', abs_FileIndices = []\<rparr>],
       ar_Files = [], ar_ProjectName = ''demo''\<rparr>"
  let ?c = "\<lambda>(prompt :: string) (system :: string). (Inr ''summary: s'' :: error + string)"
  let ?e0 = "\<lparr>yr_From = VInt 0, yr_To = VInt 0, yr_Label = ''self''\<rparr>"
  let ?e1 = "\<lparr>yr_From = VInt 0, yr_To = VString ''1 # B'', yr_Label = ''uses''\<rparr>"
  let ?e2 = "\<lparr>yr_From = VInt 0, yr_To = VInt 2, yr_Label = ''uses''\<rparr>"
  let ?yd1 = "\<lparr>yd_Summary = ''s'', yd_Details = [?e0, ?e1, ?e1]\<rparr>"
  let ?yd2 = "\<lparr>yd_Summary = ''s'', yd_Details = [?e1, ?e2]\<rparr>"
  obtain ctx where ctx: "relationshipCodeContext (ar_Files ?I) (ar_Abstractions ?I) = Inr ctx"
    by simp
  have n: "length (ar_Abstractions ?I) \<noteq> 0" "int (length (ar_Abstractions ?I)) = 2" by simp_all
  have one: "extractIndex (VString ''1 # B'') = Inr 1" by code_simp
  have ok1: "list_all (edgeInBounds (length (ar_Abstractions ?I))) (yd_Details ?yd1)"
    by (simp add: edgeInBounds_def one del: extractIndex.simps(2))
  have out1: "map resolvedEdge (yd_Details ?yd1)
      = [\<lparr>rel_FromIndex = 0, rel_ToIndex = 0, rel_Label = ''self''\<rparr>,
         \<lparr>rel_FromIndex = 0, rel_ToIndex = 1, rel_Label = ''uses''\<rparr>,
         \<lparr>rel_FromIndex = 0, rel_ToIndex = 1, rel_Label = ''uses''\<rparr>]"
    by (simp add: resolvedEdge_def resolvedIndex_def one del: extractIndex.simps(2))
  have ok2: "list_all (edgeInBounds (length (ar_Abstractions ?I))) [?e1]"
    by (simp add: edgeInBounds_def one del: extractIndex.simps(2))
  from relationship_edges_within_bounds
    [where input = ?I and codeContext = ctx and NewClient = "Inr ?c" and client = ?c
       and response = "''summary: s''" and Unmarshal = "\<lambda>text. Inr ?yd1" and yd = ?yd1
       and out = "\<lparr>rd_Summary = ''s'', rd_Details = map resolvedEdge (yd_Details ?yd1)\<rparr>"]
    n ctx ok1
  have r1: "AnalyzeRelationships (Inr ?c) (\<lambda>text. Inr ?yd1) ?I
      = Inr \<lparr>rd_Summary = ''s'', rd_Details = map resolvedEdge (yd_Details ?yd1)\<rparr>"
    by simp
  from relationship_edges_within_bounds
    [where input = ?I and codeContext = ctx and NewClient = "Inr ?c" and client = ?c
       and response = "''summary: s''" and Unmarshal = "\<lambda>text. Inr ?yd2" and yd = ?yd2
       and pre = "[?e1]" and yr = ?e2 and post = "[]" and f = 0]
    n ctx ok2
  have r2: "AnalyzeRelationships (Inr ?c) (\<lambda>text. Inr ?yd2) ?I
      = Inl (Errorf ''to index %d out of bounds in relationship %d'' [AInt 2, AInt 1])"
    by simp
  from r1 r2 show ?thesis unfolding out1 by simp
qed

subsection \<open>C1: the sequencer\<close>

text \<open>
  C1. Take a run of \<open>OrderChapters\<close> over \<open>N\<close> abstractions in which the generator
  was called and gave a response (with no abstractions the function returns
  \<open>no abstractions provided\<close> before any call, so there is no response then).
  The run succeeds with \<open>order\<close> if and only if the response decodes into a list
  of references all of which resolve, \<open>order\<close> is the list of the resolved
  indices, no index is repeated in it and its set of values is \<open>{0 .. N-1}\<close>; a
  successful order has length \<open>N\<close> and holds every index of \<open>0 .. N-1\<close> exactly
  once. The references are checked in order and the first violation ends the
  run: where the references before position \<open>k\<close> pass and the one at \<open>k\<close> does not
  resolve, the resolver's error is returned with the position \<open>k\<close>; where it
  resolves to an index below \<open>0\<close> or not below \<open>N\<close>, the run fails with that value
  and the position \<open>k\<close>; where it resolves to an index that came before, the run
  fails with that duplicate value. Where the whole list passes the loop and some
  index of \<open>0 .. N-1\<close> is absent, the run fails with the list, in increasing
  order, of all the absent indices, which is not empty.
\<close>

theorem order_is_permutation:
  "length (oc_Abstractions input) = N \<and> N \<noteq> 0
   \<and> orderChaptersPrompt input = Inr prompt
   \<and> NewClient = Inr client
   \<and> client prompt orderChaptersSystem = Inr response
   \<longrightarrow>
     (OrderChapters NewClient Unmarshal input = Inr order
        \<longleftrightarrow> (\<exists>vals. Unmarshal (extractYAMLBlock response) = Inr vals
                    \<and> allResolve vals \<and> order = resolved vals
                    \<and> distinct order \<and> set order = {0..<int N}))
     \<and> (OrderChapters NewClient Unmarshal input = Inr order
        \<longrightarrow> length order = N
            \<and> (\<forall>k. 0 \<le> k \<and> k < int N \<longrightarrow> count_list order k = 1))
     \<and> (Unmarshal (extractYAMLBlock response) = Inr (pre @ v # post) \<and> fine N pre
          \<and> extractIndex v = Inl err
        \<longrightarrow> OrderChapters NewClient Unmarshal input =
              Inl (Wrapf ''failed to extract index at position %d: %w'' err
                     [AInt (int (length pre))]))
     \<and> (Unmarshal (extractYAMLBlock response) = Inr (pre @ v # post) \<and> fine N pre
          \<and> extractIndex v = Inr idx \<and> (idx < 0 \<or> int N \<le> idx)
        \<longrightarrow> OrderChapters NewClient Unmarshal input =
              Inl (Errorf ''index %d out of bounds at position %d''
                     [AInt idx, AInt (int (length pre))]))
     \<and> (Unmarshal (extractYAMLBlock response) = Inr (pre @ v # post) \<and> fine N pre
          \<and> extractIndex v = Inr idx \<and> 0 \<le> idx \<and> idx < int N
          \<and> idx \<in> set (resolved pre)
        \<longrightarrow> OrderChapters NewClient Unmarshal input =
              Inl (Errorf ''duplicate index %d found'' [AInt idx]))
     \<and> (Unmarshal (extractYAMLBlock response) = Inr vals \<and> fine N vals
          \<and> set (resolved vals) \<noteq> {0..<int N}
        \<longrightarrow> OrderChapters NewClient Unmarshal input =
              Inl (Errorf ''missing abstractions in order: %v''
                     [AIntList (filter (\<lambda>i. i \<notin> set (resolved vals)) (map int [0..<N]))])
            \<and> filter (\<lambda>i. i \<notin> set (resolved vals)) (map int [0..<N]) \<noteq> [])"
proof (intro impI, elim conjE)
  assume h: "length (oc_Abstractions input) = N" "N \<noteq> 0"
    "orderChaptersPrompt input = Inr prompt" "NewClient = Inr client"
    "client prompt orderChaptersSystem = Inr response"
  have run: "OrderChapters NewClient Unmarshal input = validateOrder N vals"
    if "Unmarshal (extractYAMLBlock response) = Inr vals" for vals
    unfolding OrderChapters_def h(3,4) using h(1,2,5) that by simp
  have nodecode: "\<exists>e. OrderChapters NewClient Unmarshal input = Inl e"
    if "Unmarshal (extractYAMLBlock response) = Inl err'" for err'
    unfolding OrderChapters_def h(3,4) using h(1,2,5) that by simp
  have a: "OrderChapters NewClient Unmarshal input = Inr order
        \<longleftrightarrow> (\<exists>vals. Unmarshal (extractYAMLBlock response) = Inr vals
                    \<and> allResolve vals \<and> order = resolved vals
                    \<and> distinct order \<and> set order = {0..<int N})"
  proof (cases "Unmarshal (extractYAMLBlock response)")
    case (Inl err')
    with nodecode [OF Inl] show ?thesis by auto
  next
    case (Inr vals)
    show ?thesis unfolding run [OF Inr] validateOrder_success using Inr by auto
  qed
  have b: "length order = N \<and> (\<forall>k. 0 \<le> k \<and> k < int N \<longrightarrow> count_list order k = 1)"
    if "OrderChapters NewClient Unmarshal input = Inr order"
  proof -
    from that a have d: "distinct order" and s: "set order = {0..<int N}" by blast+
    from d have "card (set order) = length order" by (rule distinct_card)
    with s have "length order = N" by simp
    moreover have "count_list order k = 1" if "0 \<le> k \<and> k < int N" for k
      using distinct_count_list [OF d, of k] s that by simp
    ultimately show ?thesis by blast
  qed
  have c: "OrderChapters NewClient Unmarshal input =
              Inl (Wrapf ''failed to extract index at position %d: %w'' err
                     [AInt (int (length pre))])"
    if "Unmarshal (extractYAMLBlock response) = Inr (pre @ v # post)" "fine N pre"
      "extractIndex v = Inl err"
    unfolding run [OF that(1)] by (rule validateOrder_first_violation(1) [OF that(2,3)])
  have d: "OrderChapters NewClient Unmarshal input =
              Inl (Errorf ''index %d out of bounds at position %d''
                     [AInt idx, AInt (int (length pre))])"
    if "Unmarshal (extractYAMLBlock response) = Inr (pre @ v # post)" "fine N pre"
      "extractIndex v = Inr idx" "idx < 0 \<or> int N \<le> idx"
    unfolding run [OF that(1)] by (rule validateOrder_first_violation(2) [OF that(2,3,4)])
  have e: "OrderChapters NewClient Unmarshal input =
              Inl (Errorf ''duplicate index %d found'' [AInt idx])"
    if "Unmarshal (extractYAMLBlock response) = Inr (pre @ v # post)" "fine N pre"
      "extractIndex v = Inr idx" "0 \<le> idx" "idx < int N" "idx \<in> set (resolved pre)"
    unfolding run [OF that(1)] by (rule validateOrder_first_violation(3) [OF that(2,3,4,5,6)])
  have f: "OrderChapters NewClient Unmarshal input =
              Inl (Errorf ''missing abstractions in order: %v''
                     [AIntList (filter (\<lambda>i. i \<notin> set (resolved vals)) (map int [0..<N]))])
            \<and> filter (\<lambda>i. i \<notin> set (resolved vals)) (map int [0..<N]) \<noteq> []"
    if "Unmarshal (extractYAMLBlock response) = Inr vals" "fine N vals"
      "set (resolved vals) \<noteq> {0..<int N}"
    unfolding run [OF that(1)] using validateOrder_missing [OF that(2,3)] by simp
  from a b c d e f show
    "(OrderChapters NewClient Unmarshal input = Inr order
        \<longleftrightarrow> (\<exists>vals. Unmarshal (extractYAMLBlock response) = Inr vals
                    \<and> allResolve vals \<and> order = resolved vals
                    \<and> distinct order \<and> set order = {0..<int N}))
     \<and> (OrderChapters NewClient Unmarshal input = Inr order
        \<longrightarrow> length order = N
            \<and> (\<forall>k. 0 \<le> k \<and> k < int N \<longrightarrow> count_list order k = 1))
     \<and> (Unmarshal (extractYAMLBlock response) = Inr (pre @ v # post) \<and> fine N pre
          \<and> extractIndex v = Inl err
        \<longrightarrow> OrderChapters NewClient Unmarshal input =
              Inl (Wrapf ''failed to extract index at position %d: %w'' err
                     [AInt (int (length pre))]))
     \<and> (Unmarshal (extractYAMLBlock response) = Inr (pre @ v # post) \<and> fine N pre
          \<and> extractIndex v = Inr idx \<and> (idx < 0 \<or> int N \<le> idx)
        \<longrightarrow> OrderChapters NewClient Unmarshal input =
              Inl (Errorf ''index %d out of bounds at position %d''
                     [AInt idx, AInt (int (length pre))]))
     \<and> (Unmarshal (extractYAMLBlock response) = Inr (pre @ v # post) \<and> fine N pre
          \<and> extractIndex v = Inr idx \<and> 0 \<le> idx \<and> idx < int N
          \<and> idx \<in> set (resolved pre)
        \<longrightarrow> OrderChapters NewClient Unmarshal input =
              Inl (Errorf ''duplicate index %d found'' [AInt idx]))
     \<and> (Unmarshal (extractYAMLBlock response) = Inr vals \<and> fine N vals
          \<and> set (resolved vals) \<noteq> {0..<int N}
        \<longrightarrow> OrderChapters NewClient Unmarshal input =
              Inl (Errorf ''missing abstractions in order: %v''
                     [AIntList (filter (\<lambda>i. i \<notin> set (resolved vals)) (map int [0..<N]))])
            \<and> filter (\<lambda>i. i \<notin> set (resolved vals)) (map int [0..<N]) \<noteq> [])"
    by blast
qed

text \<open>
  Four runs over two abstractions. The response \<open>["1 # B", 0]\<close> gives the
  order \<open>[1, 0]\<close>; \<open>[0, 2]\<close> fails with the value \<open>2\<close> and the position \<open>1\<close>;
  \<open>[0, 0]\<close> fails with the duplicate value \<open>0\<close>; \<open>[1]\<close> fails with the missing
  list \<open>[0]\<close>.
\<close>

theorem order_is_permutation_witness:
  "OrderChapters (Inr (\<lambda>prompt system. Inr ''- 1 # B''))
     (\<lambda>text. Inr [VString ''1 # B'', VInt 0])
     \<lparr>oc_Abstractions = [\<lparr>abs_Index = 0, abs_Name = ''A'', abs_Description = ''a'', abs_FileIndices = []\<rparr>,
                         \<lparr>abs_Index = 1, abs_Name = ''B'', abs_Description = ''b'', abs_FileIndices = []\<rparr>],
       oc_Relationships = \<lparr>rd_Summary = ''s'', rd_Details = []\<rparr>, oc_ProjectName = ''demo''\<rparr>
   = Inr [1, 0]
   \<and> OrderChapters (Inr (\<lambda>prompt system. Inr ''- 1 # B''))
     (\<lambda>text. Inr [VInt 0, VInt 2])
     \<lparr>oc_Abstractions = [\<lparr>abs_Index = 0, abs_Name = ''A'', abs_Description = ''a'', abs_FileIndices = []\<rparr>,
                         \<lparr>abs_Index = 1, abs_Name = ''B'', abs_Description = ''b'', abs_FileIndices = []\<rparr>],
       oc_Relationships = \<lparr>rd_Summary = ''s'', rd_Details = []\<rparr>, oc_ProjectName = ''demo''\<rparr>
   = Inl (Errorf ''index %d out of bounds at position %d'' [AInt 2, AInt 1])
   \<and> OrderChapters (Inr (\<lambda>prompt system. Inr ''- 1 # B''))
     (\<lambda>text. Inr [VInt 0, VInt 0])
     \<lparr>oc_Abstractions = [\<lparr>abs_Index = 0, abs_Name = ''A'', abs_Description = ''a'', abs_FileIndices = []\<rparr>,
                         \<lparr>abs_Index = 1, abs_Name = ''B'', abs_Description = ''b'', abs_FileIndices = []\<rparr>],
       oc_Relationships = \<lparr>rd_Summary = ''s'', rd_Details = []\<rparr>, oc_ProjectName = ''demo''\<rparr>
   = Inl (Errorf ''duplicate index %d found'' [AInt 0])
   \<and> OrderChapters (Inr (\<lambda>prompt system. Inr ''- 1 # B''))
     (\<lambda>text. Inr [VInt 1])
     \<lparr>oc_Abstractions = [\<lparr>abs_Index = 0, abs_Name = ''A'', abs_Description = ''a'', abs_FileIndices = []\<rparr>,
                         \<lparr>abs_Index = 1, abs_Name = ''B'', abs_Description = ''b'', abs_FileIndices = []\<rparr>],
       oc_Relationships = \<lparr>rd_Summary = ''s'', rd_Details = []\<rparr>, oc_ProjectName = ''demo''\<rparr>
   = Inl (Errorf ''missing abstractions in order: %v'' [AIntList [0]])"
proof -
  let ?I = "\<lparr>oc_Abstractions = [\<lparr>abs_Index = 0, abs_Name = ''A'', abs_Description = ''a'', abs_FileIndices = []\<rparr>,
                         \<lparr>abs_Index = 1, abs_Name = ''B'', abs_Description = ''b'', abs_FileIndices = []\<rparr>],
       oc_Relationships = \<lparr>rd_Summary = ''s'', rd_Details = []\<rparr>, oc_ProjectName = ''demo''\<rparr>"
  let ?c = "\<lambda>(prompt :: string) (system :: string). (Inr ''- 1 # B'' :: error + string)"
  obtain p where p: "orderChaptersPrompt ?I = Inr p"
    by (simp add: orderChaptersPrompt_def)
  have n: "length (oc_Abstractions ?I) = 2" "(2::nat) \<noteq> 0" by simp_all
  have one: "extractIndex (VString ''1 # B'') = Inr 1" by code_simp
  have r1: "resolved [VString ''1 # B'', VInt 0] = [1, 0]"
    by (simp add: resolved_def resolvedIndex_def one del: extractIndex.simps(2))
  have a1: "allResolve [VString ''1 # B'', VInt 0]"
    by (simp add: allResolve_def one del: extractIndex.simps(2))
  have s1: "set [1, 0 :: int] = {0..<int 2}" by auto
  have f0: "fine 2 [VInt 0]"
    by (simp add: fine_def allResolve_def resolved_def resolvedIndex_def)
  have f1: "fine 2 [VInt 1]"
    by (simp add: fine_def allResolve_def resolved_def resolvedIndex_def)
  have r0: "resolved [VInt 0] = [0]" "resolved [VInt 1] = [1]"
    by (simp_all add: resolved_def resolvedIndex_def)
  have m: "set [1 :: int] \<noteq> {0..<int 2}"
  proof
    assume "set [1 :: int] = {0..<int 2}"
    then have "{0..<int 2} \<subseteq> set [1 :: int]" by (rule equalityD2)
    moreover have "(0::int) \<in> {0..<int 2}" by simp
    ultimately have "(0::int) \<in> set [1 :: int]" by (rule subsetD)
    then show False by simp
  qed
  have up: "map int [0..<2] = [0, 1]" by (simp add: upt_rec)
  from order_is_permutation
    [where input = ?I and N = 2 and prompt = p and NewClient = "Inr ?c" and client = ?c
       and response = "''- 1 # B''" and Unmarshal = "\<lambda>text. Inr [VString ''1 # B'', VInt 0]"
       and order = "[1, 0]"]
    n p r1 a1 s1
  have t1: "OrderChapters (Inr ?c) (\<lambda>text. Inr [VString ''1 # B'', VInt 0]) ?I = Inr [1, 0]"
    by simp
  from order_is_permutation
    [where input = ?I and N = 2 and prompt = p and NewClient = "Inr ?c" and client = ?c
       and response = "''- 1 # B''" and Unmarshal = "\<lambda>text. Inr [VInt 0, VInt 2]"
       and pre = "[VInt 0]" and v = "VInt 2" and post = "[]" and idx = 2]
    n p f0
  have t2: "OrderChapters (Inr ?c) (\<lambda>text. Inr [VInt 0, VInt 2]) ?I
      = Inl (Errorf ''index %d out of bounds at position %d'' [AInt 2, AInt 1])"
    by simp
  from order_is_permutation
    [where input = ?I and N = 2 and prompt = p and NewClient = "Inr ?c" and client = ?c
       and response = "''- 1 # B''" and Unmarshal = "\<lambda>text. Inr [VInt 0, VInt 0]"
       and pre = "[VInt 0]" and v = "VInt 0" and post = "[]" and idx = 0]
    n p f0 r0
  have t3: "OrderChapters (Inr ?c) (\<lambda>text. Inr [VInt 0, VInt 0]) ?I
      = Inl (Errorf ''duplicate index %d found'' [AInt 0])"
    by simp
  from order_is_permutation
    [where input = ?I and N = 2 and prompt = p and NewClient = "Inr ?c" and client = ?c
       and response = "''- 1 # B''" and Unmarshal = "\<lambda>text. Inr [VInt 1]"
       and vals = "[VInt 1]"]
    n p f1 r0 m up
  have t4: "OrderChapters (Inr ?c) (\<lambda>text. Inr [VInt 1]) ?I
      = Inl (Errorf ''missing abstractions in order: %v'' [AIntList [0]])"
    by simp
  from t1 t2 t3 t4 show ?thesis by simp
qed

subsection \<open>C9: the file indices in the two context builders\<close>

text \<open>
  C9. The context builders of \<open>AnalyzeRelationships\<close> and of \<open>WriteChapter\<close> test a
  file index only against the size of the corpus. An index at or above the size
  is skipped without a trace: the context, and the whole stage, are the same as
  for the abstractions without those indices. The index expression that follows
  the test is safe exactly when no file index is negative: the context is built
  if and only if every index is at least \<open>0\<close>, and with a negative index the
  builder, and the stage with it, stops at the first one with the run-time panic
  \<open>index out of range\<close> for that index and the size of the corpus.
\<close>

theorem context_guards_upper_bound_only:
  "relationshipCodeContext files (map (dropAboveCorpus files) abstractions)
     = relationshipCodeContext files abstractions
   \<and> ((\<exists>s. relationshipCodeContext files abstractions = Inr s)
        \<longleftrightarrow> (\<forall>j\<in>set (concat (map abs_FileIndices abstractions)). 0 \<le> j))
   \<and> (firstNegative (concat (map abs_FileIndices abstractions)) = Some k
        \<longrightarrow> relationshipCodeContext files abstractions
              = Inl (PanicIndexOutOfRange k (length files)))
   \<and> (ar_Abstractions input \<noteq> []
        \<and> firstNegative (concat (map abs_FileIndices (ar_Abstractions input))) = Some k
        \<longrightarrow> AnalyzeRelationships NewClient Unmarshal input
              = Inl (PanicIndexOutOfRange k (length (ar_Files input))))
   \<and> AnalyzeRelationships NewClient Unmarshal
         (input\<lparr>ar_Abstractions :=
                   map (dropAboveCorpus (ar_Files input)) (ar_Abstractions input)\<rparr>)
       = AnalyzeRelationships NewClient Unmarshal input
   \<and> chapterFileContext files (belowCorpus files idxs) = chapterFileContext files idxs
   \<and> ((\<exists>s. chapterFileContext files idxs = Inr s) \<longleftrightarrow> (\<forall>j\<in>set idxs. 0 \<le> j))
   \<and> (firstNegative idxs = Some k
        \<longrightarrow> chapterFileContext files idxs = Inl (PanicIndexOutOfRange k (length files)))
   \<and> (abs_Name (wc_Abstraction winput) \<noteq> []
        \<and> firstNegative (abs_FileIndices (wc_Abstraction winput)) = Some k
        \<longrightarrow> WriteChapter NewClient winput
              = Inl (PanicIndexOutOfRange k (length (wc_Files winput))))
   \<and> WriteChapter NewClient
         (winput\<lparr>wc_Abstraction := dropAboveCorpus (wc_Files winput) (wc_Abstraction winput)\<rparr>)
       = WriteChapter NewClient winput"
proof -
  have r1: "relationshipCodeContext files (map (dropAboveCorpus files) abstractions)
     = relationshipCodeContext files abstractions"
    by (rule relationshipCodeContext_skip)
  have r2: "(\<exists>s. relationshipCodeContext files abstractions = Inr s)
        \<longleftrightarrow> (\<forall>j\<in>set (concat (map abs_FileIndices abstractions)). 0 \<le> j)"
    unfolding relationshipCodeContext_safe firstNegative_None ..
  have r3: "firstNegative (concat (map abs_FileIndices abstractions)) = Some k
        \<longrightarrow> relationshipCodeContext files abstractions
              = Inl (PanicIndexOutOfRange k (length files))"
    by (simp add: relationshipCodeContext_panic)
  have r4: "ar_Abstractions input \<noteq> []
        \<and> firstNegative (concat (map abs_FileIndices (ar_Abstractions input))) = Some k
        \<longrightarrow> AnalyzeRelationships NewClient Unmarshal input
              = Inl (PanicIndexOutOfRange k (length (ar_Files input)))"
  proof (intro impI, elim conjE)
    assume ne: "ar_Abstractions input \<noteq> []"
      and fn: "firstNegative (concat (map abs_FileIndices (ar_Abstractions input))) = Some k"
    show "AnalyzeRelationships NewClient Unmarshal input
              = Inl (PanicIndexOutOfRange k (length (ar_Files input)))"
      unfolding AnalyzeRelationships_def
        relationshipCodeContext_panic [OF fn, of "ar_Files input"]
      using ne by simp
  qed
  have r5: "AnalyzeRelationships NewClient Unmarshal
         (input\<lparr>ar_Abstractions :=
                   map (dropAboveCorpus (ar_Files input)) (ar_Abstractions input)\<rparr>)
       = AnalyzeRelationships NewClient Unmarshal input"
    unfolding AnalyzeRelationships_def analyzeRelationshipsPrompt_def
    by (simp add: relationshipCodeContext_skip abstractionListing_dropAboveCorpus
          cong: sum.case_cong)
  have w1: "chapterFileContext files (belowCorpus files idxs) = chapterFileContext files idxs"
    by (rule chapterFileContext_skip)
  have w2: "(\<exists>s. chapterFileContext files idxs = Inr s) \<longleftrightarrow> (\<forall>j\<in>set idxs. 0 \<le> j)"
    unfolding chapterFileContext_safe firstNegative_None ..
  have w3: "firstNegative idxs = Some k
        \<longrightarrow> chapterFileContext files idxs = Inl (PanicIndexOutOfRange k (length files))"
    by (simp add: chapterFileContext_panic)
  have w4: "abs_Name (wc_Abstraction winput) \<noteq> []
        \<and> firstNegative (abs_FileIndices (wc_Abstraction winput)) = Some k
        \<longrightarrow> WriteChapter NewClient winput
              = Inl (PanicIndexOutOfRange k (length (wc_Files winput)))"
  proof (intro impI, elim conjE)
    assume ne: "abs_Name (wc_Abstraction winput) \<noteq> []"
      and fn: "firstNegative (abs_FileIndices (wc_Abstraction winput)) = Some k"
    show "WriteChapter NewClient winput
              = Inl (PanicIndexOutOfRange k (length (wc_Files winput)))"
      unfolding WriteChapter_def chapterFileContext_panic [OF fn, of "wc_Files winput"]
      using ne by simp
  qed
  have w5: "WriteChapter NewClient
         (winput\<lparr>wc_Abstraction := dropAboveCorpus (wc_Files winput) (wc_Abstraction winput)\<rparr>)
       = WriteChapter NewClient winput"
    unfolding WriteChapter_def writeChapterPrompt_def
    by (simp add: dropAboveCorpus_def chapterFileContext_skip [unfolded belowCorpus_def]
          belowCorpus_def cong: sum.case_cong)
  from r1 r2 r3 r4 r5 w1 w2 w3 w4 w5 show ?thesis by (intro conjI)
qed

text \<open>
  A corpus of one file. The index \<open>5\<close> is skipped; the index \<open>-1\<close> stops
  \<open>WriteChapter\<close> and \<open>AnalyzeRelationships\<close> with the panic for \<open>-1\<close> and the
  size \<open>1\<close>.
\<close>

theorem context_guards_upper_bound_only_witness:
  "chapterFileContext [\<lparr>file_Index = 0, file_Path = ''a.go'', file_Content = ''x''\<rparr>] [5, 0]
     = chapterFileContext [\<lparr>file_Index = 0, file_Path = ''a.go'', file_Content = ''x''\<rparr>] [0]
   \<and> WriteChapter (Inr (\<lambda>prompt system. Inr ''# A''))
        \<lparr>wc_Abstraction = \<lparr>abs_Index = 0, abs_Name = ''A'', abs_Description = ''a'',
                             abs_FileIndices = [5, 0, -1]\<rparr>,
          wc_Files = [\<lparr>file_Index = 0, file_Path = ''a.go'', file_Content = ''x''\<rparr>],
          wc_PreviousChapters = [], wc_ProjectName = ''demo'', wc_ChapterNumber = 1\<rparr>
     = Inl (PanicIndexOutOfRange (-1) 1)
   \<and> AnalyzeRelationships (Inr (\<lambda>prompt system. Inr ''summary: s''))
        (\<lambda>text. Inr \<lparr>yd_Summary = ''s'', yd_Details = []\<rparr>)
        \<lparr>ar_Abstractions = [\<lparr>abs_Index = 0, abs_Name = ''A'', abs_Description = ''a'',
                               abs_FileIndices = [5, 0]\<rparr>,
                            \<lparr>abs_Index = 1, abs_Name = ''B'', abs_Description = ''b'',
                               abs_FileIndices = [-1]\<rparr>],
          ar_Files = [\<lparr>file_Index = 0, file_Path = ''a.go'', file_Content = ''x''\<rparr>],
          ar_ProjectName = ''demo''\<rparr>
     = Inl (PanicIndexOutOfRange (-1) 1)"
proof -
  let ?f = "\<lparr>file_Index = 0, file_Path = ''a.go'', file_Content = ''x''\<rparr>"
  let ?W = "\<lparr>wc_Abstraction = \<lparr>abs_Index = 0, abs_Name = ''A'', abs_Description = ''a'',
                             abs_FileIndices = [5, 0, -1]\<rparr>,
          wc_Files = [?f],
          wc_PreviousChapters = [], wc_ProjectName = ''demo'', wc_ChapterNumber = 1\<rparr>"
  let ?R = "\<lparr>ar_Abstractions = [\<lparr>abs_Index = 0, abs_Name = ''A'', abs_Description = ''a'',
                               abs_FileIndices = [5, 0]\<rparr>,
                            \<lparr>abs_Index = 1, abs_Name = ''B'', abs_Description = ''b'',
                               abs_FileIndices = [-1]\<rparr>],
          ar_Files = [?f], ar_ProjectName = ''demo''\<rparr>"
  have b: "belowCorpus [?f] [5, 0] = [0]" by (simp add: belowCorpus_def)
  have fw: "firstNegative (abs_FileIndices (wc_Abstraction ?W)) = Some (-1)"
    by (simp add: firstNegative_def)
  have fr: "firstNegative (concat (map abs_FileIndices (ar_Abstractions ?R))) = Some (-1)"
    by (simp add: firstNegative_def)
  have nw: "abs_Name (wc_Abstraction ?W) \<noteq> []" by simp
  have nr: "ar_Abstractions ?R \<noteq> []" by simp
  have lw: "length (wc_Files ?W) = 1" "length (ar_Files ?R) = 1" by simp_all
  note t = context_guards_upper_bound_only
    [where files = "[?f]" and idxs = "[5, 0]" and k = "-1" and winput = ?W and input = ?R
       and NewClient = "Inr (\<lambda>prompt system. Inr ''# A'')"]
  note t' = context_guards_upper_bound_only
    [where k = "-1" and input = ?R
       and NewClient = "Inr (\<lambda>prompt system. Inr ''summary: s'')"
       and Unmarshal = "\<lambda>text. Inr \<lparr>yd_Summary = ''s'', yd_Details = []\<rparr>"]
  have c1: "chapterFileContext [?f] [5, 0] = chapterFileContext [?f] [0]"
    using t [THEN conjunct2, THEN conjunct2, THEN conjunct2, THEN conjunct2, THEN conjunct2,
             THEN conjunct1]
    unfolding b by (rule sym)
  have c2: "WriteChapter (Inr (\<lambda>prompt system. Inr ''# A'')) ?W
              = Inl (PanicIndexOutOfRange (-1) (length (wc_Files ?W)))"
    using t [THEN conjunct2, THEN conjunct2, THEN conjunct2, THEN conjunct2, THEN conjunct2,
             THEN conjunct2, THEN conjunct2, THEN conjunct2, THEN conjunct1] nw fw
    by (rule mp [OF _ conjI])
  have c3: "AnalyzeRelationships (Inr (\<lambda>prompt system. Inr ''summary: s''))
               (\<lambda>text. Inr \<lparr>yd_Summary = ''s'', yd_Details = []\<rparr>) ?R
              = Inl (PanicIndexOutOfRange (-1) (length (ar_Files ?R)))"
    using t' [THEN conjunct2, THEN conjunct2, THEN conjunct2, THEN conjunct1] nr fr
    by (rule mp [OF _ conjI])
  from c1 c2 c3 show ?thesis unfolding lw by (intro conjI)
qed

subsection \<open>C8: the previous chapters in the composer's prompt\<close>



end
